theory Spec2Isabelle
  imports Complex_Main
begin

section \<open>Data of the scrape-event function\<close>

text \<open>
  The embedding follows \<^verbatim>\<open>supabase/functions/scrape-event/index.ts\<close>. JavaScript numbers
  that count things are modelled as \<^typ>\<open>int\<close>, averages as \<^typ>\<open>real\<close> (exact arithmetic;
  the counts and averages of a match are far below \<open>2^53\<close>, where doubles are exact).
  An array read from an embedded JSON block is a list whose elements may be \<open>null\<close>
  (\<open>None\<close>); a JSON object property is absent or \<open>null\<close> (\<open>None\<close>) or has a value.
\<close>

text \<open>One entry of \<^verbatim>\<open>props.players\<close> (the roster page).\<close>

record roster_entry =
  name :: string
  total_wins :: int
  total_games :: int
  average_01 :: real
  card_link :: "string option"

text \<open>
  One entry of \<^verbatim>\<open>props.distribution\<close>: an object from round score (a string key) to
  its count. The list holds the object's own properties; \<^verbatim>\<open>dist[k]\<close> is \<open>map_of\<close> and
  \<^verbatim>\<open>Object.keys(dist)\<close> is \<open>map fst\<close>.
\<close>

type_synonym dist = "(string \<times> int) list"

record first_nine_stats =
  fn_average :: "real option"

record checkout_data =
  efficiency :: "string option"
  opportunities :: "int option"
  hit :: "int option"
  highest :: "int option"
  co_average :: "real option"

text \<open>The three arrays read from the counts page, after the \<^verbatim>\<open>|| []\<close> defaults.\<close>

record counts_props =
  distribution :: "dist option list"
  first_nine :: "first_nine_stats option list"
  checkout_stats :: "checkout_data option list"

text \<open>The numbers that \<^verbatim>\<open>parseInt\<close> and \<^verbatim>\<open>Math.max\<close> give here: an integer or an infinity
  (\<^verbatim>\<open>Math.max\<close> without arguments is \<open>-Infinity\<close>).\<close>

datatype jsnum = NegInfinity | Fin int | PosInfinity

text \<open>The object passed to \<^verbatim>\<open>upsert\<close> (table \<^verbatim>\<open>aads_players\<close>).\<close>

record stat_record =
  user_id :: string
  rec_name :: string
  match_id :: string
  event_name :: string
  legs_won :: int
  legs_played :: int
  average :: real
  first_nine_avg :: "real option"
  count_180s :: int
  count_140_plus :: int
  count_100_plus :: int
  highest_score :: jsnum
  checkout_efficiency :: "string option"
  checkout_opportunities :: int
  checkouts_hit :: int
  highest_checkout :: "int option"
  avg_finish :: "real option"
  rec_card_link :: "string option"

section \<open>JavaScript primitives used by the builder\<close>

text \<open>\<^verbatim>\<open>xs[i]\<close>: \<open>undefined\<close> out of range, the element (possibly \<open>null\<close>) otherwise.\<close>

definition js_index :: "'a option list \<Rightarrow> nat \<Rightarrow> 'a option" where
  "js_index xs i = (if i < length xs then xs ! i else None)"

text \<open>\<^verbatim>\<open>x || 0\<close> and \<^verbatim>\<open>x || null\<close> on numbers: \<open>0\<close>, \<open>null\<close> and \<open>undefined\<close> are falsy.\<close>

definition or_zero :: "int option \<Rightarrow> int" where
  "or_zero v = (case v of None \<Rightarrow> 0 | Some n \<Rightarrow> n)"

definition or_null_int :: "int option \<Rightarrow> int option" where
  "or_null_int v = (case v of None \<Rightarrow> None | Some n \<Rightarrow> if n = 0 then None else Some n)"

definition or_null_real :: "real option \<Rightarrow> real option" where
  "or_null_real v = (case v of None \<Rightarrow> None | Some x \<Rightarrow> if x = 0 then None else Some x)"

text \<open>\<^verbatim>\<open>s || null\<close> on strings: the empty string is falsy.\<close>

definition or_null_str :: "string option \<Rightarrow> string option" where
  "or_null_str v = (case v of None \<Rightarrow> None | Some s \<Rightarrow> if s = [] then None else Some s)"

text \<open>\<^verbatim>\<open>if (dist[k]) acc += dist[k]\<close>.\<close>

definition add_if_truthy :: "int \<Rightarrow> int option \<Rightarrow> int" where
  "add_if_truthy acc v = (case v of None \<Rightarrow> acc | Some n \<Rightarrow> if n \<noteq> 0 then acc + n else acc)"

text \<open>
  \<^verbatim>\<open>parseInt(k)\<close> without a radix: leading white space is skipped, then an optional
  sign, then \<^verbatim>\<open>0x\<close>/\<^verbatim>\<open>0X\<close> selects radix 16; the longest prefix of digits is read and
  the rest ignored; the integer read is rounded to the nearest double (ties to even,
  \<open>Infinity\<close> from \<open>2^1024\<close> on). \<open>None\<close> is \<open>NaN\<close> (no digit). A \<^typ>\<open>char\<close> stands for a
  code unit below U+0100, where the white space is the six ASCII characters and the
  no-break space U+00A0.
\<close>

definition is_space :: "char \<Rightarrow> bool" where
  "is_space c =
     (c \<in> set [CHR '' '', CHR 0x09, CHR 0x0A, CHR 0x0B, CHR 0x0C, CHR 0x0D, CHR 0xA0])"

definition digit_val :: "char \<Rightarrow> int option" where
  "digit_val c =
     (let n = of_char c :: int in
      if 48 \<le> n \<and> n \<le> 57 then Some (n - 48)
      else if 97 \<le> n \<and> n \<le> 102 then Some (n - 87)
      else if 65 \<le> n \<and> n \<le> 70 then Some (n - 55)
      else None)"

definition is_digit :: "int \<Rightarrow> char \<Rightarrow> bool" where
  "is_digit radix c = (case digit_val c of None \<Rightarrow> False | Some d \<Rightarrow> d < radix)"

fun digits_value :: "int \<Rightarrow> int \<Rightarrow> string \<Rightarrow> int" where
  "digits_value radix acc [] = acc"
| "digits_value radix acc (c # cs) = digits_value radix (acc * radix + the (digit_val c)) cs"

definition parse_digits :: "int \<Rightarrow> string \<Rightarrow> int option" where
  "parse_digits radix s =
     (let z = takeWhile (is_digit radix) s in
      if z = [] then None else Some (digits_value radix 0 z))"

definition parse_unsigned :: "string \<Rightarrow> int option" where
  "parse_unsigned s =
     (case s of
        c # d # rest \<Rightarrow>
          (if c = CHR ''0'' \<and> (d = CHR ''x'' \<or> d = CHR ''X'') then parse_digits 16 rest
           else parse_digits 10 s)
      | _ \<Rightarrow> parse_digits 10 s)"

text \<open>The number of binary digits of \<open>n\<close>.\<close>

function bit_length :: "int \<Rightarrow> nat" where
  "bit_length n = (if n \<le> 0 then 0 else Suc (bit_length (n div 2)))"
  by pat_completeness auto
termination
  by (relation "measure nat") auto

declare bit_length.simps [simp del]

text \<open>The double nearest to the integer \<open>n \<ge> 0\<close>, ties to the even significand of 53
  binary digits; \<open>None\<close> when the result is not finite.\<close>

definition to_double :: "int \<Rightarrow> int option" where
  "to_double n =
     (if n < 2 ^ 53 then Some n
      else
        (let e = bit_length n - 53;
             q = n div 2 ^ e;
             r = n mod 2 ^ e;
             h = 2 ^ (e - 1);
             m = (if h < r \<or> (r = h \<and> odd q) then q + 1 else q)
         in if 2 ^ 1024 \<le> m * 2 ^ e then None else Some (m * 2 ^ e)))"

definition number_of :: "bool \<Rightarrow> int \<Rightarrow> jsnum" where
  "number_of negative n =
     (case to_double n of
        None \<Rightarrow> (if negative then NegInfinity else PosInfinity)
      | Some m \<Rightarrow> Fin (if negative then - m else m))"

definition parseInt :: "string \<Rightarrow> jsnum option" where
  "parseInt k =
     (let s = dropWhile is_space k in
      case s of
        [] \<Rightarrow> None
      | c # rest \<Rightarrow>
          (if c = CHR ''-'' then map_option (number_of True) (parse_unsigned rest)
           else if c = CHR ''+'' then map_option (number_of False) (parse_unsigned rest)
           else map_option (number_of False) (parse_unsigned s)))"

text \<open>\<^verbatim>\<open>parseInt(k) || 0\<close>: \<open>NaN\<close> and 0 are falsy, the infinities are not.\<close>

definition or_zero_num :: "jsnum option \<Rightarrow> jsnum" where
  "or_zero_num v = (case v of None \<Rightarrow> Fin 0 | Some x \<Rightarrow> x)"

text \<open>\<^verbatim>\<open>Math.max(...xs)\<close>.\<close>

fun js_max :: "jsnum \<Rightarrow> jsnum \<Rightarrow> jsnum" where
  "js_max NegInfinity y = y"
| "js_max x NegInfinity = x"
| "js_max PosInfinity y = PosInfinity"
| "js_max x PosInfinity = PosInfinity"
| "js_max (Fin a) (Fin b) = Fin (max a b)"

fun math_max :: "jsnum list \<Rightarrow> jsnum" where
  "math_max [] = NegInfinity"
| "math_max (x # xs) = js_max x (math_max xs)"

section \<open>StatRecordBuilder: the body of the player loop\<close>

text \<open>\<^verbatim>\<open>Math.max(...Object.keys(dist).map(k => parseInt(k) || 0))\<close>.\<close>

definition highest_score_of :: "dist \<Rightarrow> jsnum" where
  "highest_score_of d = math_max (map (\<lambda>k. or_zero_num (parseInt k)) (map fst d))"

definition calc_140_plus :: "dist \<Rightarrow> int" where
  "calc_140_plus d =
     (let c0 = 0;
          c1 = add_if_truthy c0 (map_of d ''140'');
          c2 = add_if_truthy c1 (map_of d ''141'');
          c3 = add_if_truthy c2 (map_of d ''160'');
          c4 = add_if_truthy c3 (map_of d ''171'')
      in c4 + or_zero (map_of d ''180''))"

text \<open>\<^verbatim>\<open>first_nine[i] || {}\<close>, \<^verbatim>\<open>checkout_stats[i] || {}\<close>, \<^verbatim>\<open>distribution[i] || {}\<close>.\<close>

definition first_nine_at :: "counts_props \<Rightarrow> nat \<Rightarrow> first_nine_stats" where
  "first_nine_at c i =
     (case js_index (first_nine c) i of None \<Rightarrow> \<lparr>fn_average = None\<rparr> | Some f \<Rightarrow> f)"

definition checkout_at :: "counts_props \<Rightarrow> nat \<Rightarrow> checkout_data" where
  "checkout_at c i =
     (case js_index (checkout_stats c) i of
        None \<Rightarrow> \<lparr>efficiency = None, opportunities = None, hit = None, highest = None,
                 co_average = None\<rparr>
      | Some d \<Rightarrow> d)"

definition dist_at :: "counts_props \<Rightarrow> nat \<Rightarrow> dist" where
  "dist_at c i = (case js_index (distribution c) i of None \<Rightarrow> [] | Some d \<Rightarrow> d)"

definition build_record ::
  "string \<Rightarrow> string \<Rightarrow> string \<Rightarrow> roster_entry \<Rightarrow> counts_props \<Rightarrow> nat \<Rightarrow> stat_record" where
  "build_record uid ev mid player c i =
     (let firstNineStats = first_nine_at c i;
          checkoutData = checkout_at c i;
          d = dist_at c i;
          c140 = calc_140_plus d;
          c180 = or_zero (map_of d ''180'')
      in \<lparr>user_id = uid,
          rec_name = name player,
          match_id = mid,
          event_name = ev,
          legs_won = total_wins player,
          legs_played = total_games player,
          average = average_01 player,
          first_nine_avg = or_null_real (fn_average firstNineStats),
          count_180s = c180,
          count_140_plus = c140,
          count_100_plus = or_zero (map_of d ''100'') + c140,
          highest_score = highest_score_of d,
          checkout_efficiency = or_null_str (efficiency checkoutData),
          checkout_opportunities = or_zero (opportunities checkoutData),
          checkouts_hit = or_zero (hit checkoutData),
          highest_checkout = or_null_int (highest checkoutData),
          avg_finish = or_null_real (co_average checkoutData),
          rec_card_link = or_null_str (card_link player)\<rparr>)"

text \<open>The spec's reading of a distribution: the value at a key, 0 if the key is absent.\<close>

definition dist_value :: "dist \<Rightarrow> string \<Rightarrow> int" where
  "dist_value d k = (case map_of d k of None \<Rightarrow> 0 | Some v \<Rightarrow> v)"

section \<open>PersistenceUpserter: the keyed store\<close>

text \<open>The columns of \<^verbatim>\<open>onConflict: 'user_id,event_name,match_id,name'\<close>, which are the
  columns of the unique index \<^verbatim>\<open>aads_players_match_unique\<close>.\<close>

type_synonym rec_key = "string \<times> string \<times> string \<times> string"

definition key_of :: "stat_record \<Rightarrow> rec_key" where
  "key_of r = (user_id r, event_name r, match_id r, rec_name r)"

text \<open>
  The table \<^verbatim>\<open>aads_players\<close> lives in the database behind the Supabase client; it is
  modelled as the list of its rows. \<^verbatim>\<open>upsert(record, { onConflict: ... })\<close> is an
  \<^verbatim>\<open>INSERT ... ON CONFLICT (...) DO UPDATE\<close>: the row that has the key of the new record
  takes the values of the new record, and the record is added when no row has its key.
  A row is the record as the function builds it; its form on the wire (where
  \<open>-Infinity\<close> is written as \<open>null\<close>) and the columns that the database fills by itself
  are not modelled.
\<close>

fun upsert :: "stat_record list \<Rightarrow> stat_record \<Rightarrow> stat_record list" where
  "upsert [] r = [r]"
| "upsert (x # xs) r = (if key_of x = key_of r then r # xs else x # upsert xs r)"

definition lookup :: "stat_record list \<Rightarrow> rec_key \<Rightarrow> stat_record option" where
  "lookup db k = find (\<lambda>x. key_of x = k) db"

section \<open>PipelineOrchestrator\<close>

text \<open>The calls the function makes to its collaborators, in order.\<close>

datatype call =
    FetchMatches string
  | FetchPlayers string
  | FetchCounts string
  | Upsert stat_record

text \<open>
  What a \<^verbatim>\<open>fetch\<close> of an Inertia page ends in: an exception with its message (the
  fetch itself, \<^verbatim>\<open>JSON.parse\<close>, a property read on \<open>null\<close>), a response that is not
  \<^verbatim>\<open>ok\<close> with its status, a page without \<^verbatim>\<open>data-page="..."\<close>, or the parsed props.
\<close>

datatype 'a page_outcome =
    PageThrew string
  | PageNotOk nat
  | PageNoInertia
  | PageProps 'a

text \<open>The discovery call: \<^verbatim>\<open>payload?.sections\<close> may be missing (\<open>None\<close>); a section has
  \<^verbatim>\<open>segments\<close> or not; a segment has a \<^verbatim>\<open>match_id\<close> or not.\<close>

type_synonym segment = "string option"
type_synonym api_section = "segment list option"

datatype api_outcome =
    ApiThrew string
  | ApiNotOk nat
  | ApiData "api_section list option"

text \<open>The collaborators of one invocation. A write fails or not, with the store's
  message, depending on the record written.\<close>

record env =
  auth_user :: "string option"
  fetch_matches :: "string \<Rightarrow> api_outcome"
  fetch_players :: "string \<Rightarrow> roster_entry option list page_outcome"
  fetch_counts :: "string \<Rightarrow> counts_props page_outcome"
  upsert_error :: "stat_record \<Rightarrow> string option"

text \<open>The store, the call log and the local variables of the match loop.\<close>

record run_state =
  store :: "stat_record list"
  calls :: "call list"
  successful :: nat
  failed :: nat
  errors :: "string list"
  playerSummary :: "(string \<times> (nat \<times> int)) list"

text \<open>Template literals print a status code in decimal.\<close>

definition digit_char :: "nat \<Rightarrow> char" where
  "digit_char d = ''0123456789'' ! d"

fun string_of_nat :: "nat \<Rightarrow> string" where
  "string_of_nat n =
     (if n < 10 then [digit_char n] else string_of_nat (n div 10) @ [digit_char (n mod 10)])"

declare string_of_nat.simps [simp del]

text \<open>\<^verbatim>\<open>event_url.match(/event\/([^\/]+)/)\<close>: the first place where \<^verbatim>\<open>event/\<close> is followed by
  at least one character other than \<^verbatim>\<open>/\<close>; the group is the longest run of such characters.\<close>

fun strip_prefix :: "string \<Rightarrow> string \<Rightarrow> string option" where
  "strip_prefix [] s = Some s"
| "strip_prefix (p # ps) [] = None"
| "strip_prefix (p # ps) (c # cs) = (if p = c then strip_prefix ps cs else None)"

fun match_event :: "string \<Rightarrow> string option" where
  "match_event [] = None"
| "match_event (c # cs) =
     (case strip_prefix ''event/'' (c # cs) of
        None \<Rightarrow> match_event cs
      | Some rest \<Rightarrow>
          (let tok = takeWhile (\<lambda>x. x \<noteq> CHR ''/'') rest
           in if tok = [] then match_event cs else Some tok))"

text \<open>The two nested loops that fill \<^verbatim>\<open>matchIds\<close>.\<close>

definition segment_ids :: "segment list \<Rightarrow> string list" where
  "segment_ids segs =
     concat (map (\<lambda>s. case s of None \<Rightarrow> [] | Some m \<Rightarrow> if m = [] then [] else [m]) segs)"

definition collect_match_ids :: "api_section list option \<Rightarrow> string list" where
  "collect_match_ids sections =
     (case sections of
        None \<Rightarrow> []
      | Some secs \<Rightarrow>
          concat (map (\<lambda>sec. case sec of None \<Rightarrow> [] | Some segs \<Rightarrow> segment_ids segs) secs))"

text \<open>
  \<^verbatim>\<open>playerSummary\<close> is a plain object, so \<^verbatim>\<open>playerSummary[name]\<close> also finds the properties
  that every object inherits from \<^verbatim>\<open>Object.prototype\<close> (in the Deno runtime, which has
  no \<^verbatim>\<open>__proto__\<close> accessor).
\<close>

definition object_prototype_names :: "string list" where
  "object_prototype_names =
     [''constructor'', ''toString'', ''toLocaleString'', ''valueOf'', ''hasOwnProperty'',
      ''isPrototypeOf'', ''propertyIsEnumerable'', ''__defineGetter__'', ''__defineSetter__'',
      ''__lookupGetter__'', ''__lookupSetter__'']"

text \<open>
  The per-run player summary: \<^verbatim>\<open>match_count++\<close> and \<^verbatim>\<open>count_180s += count_180s\<close>, after
  creating the entry when \<^verbatim>\<open>playerSummary[name]\<close> is falsy. For an inherited name the
  value found is a function, no entry is created and the two updates go to that
  function, so the summary itself does not change. The list holds the own properties;
  the order in which \<^verbatim>\<open>JSON.stringify\<close> writes them is not modelled.
\<close>

definition track_player ::
  "(string \<times> (nat \<times> int)) list \<Rightarrow> string \<Rightarrow> int \<Rightarrow> (string \<times> (nat \<times> int)) list" where
  "track_player ps n c180 =
     (if n \<in> set object_prototype_names then ps
      else
        (let ps1 = (if map_of ps n = None then ps @ [(n, (0, 0))] else ps)
         in map (\<lambda>(k, (mc, c)). if k = n then (k, (mc + 1, c + c180)) else (k, (mc, c))) ps1))"

text \<open>The message of the \<^verbatim>\<open>TypeError\<close> raised by \<^verbatim>\<open>player.name\<close> when \<^verbatim>\<open>players[i]\<close> is
  \<open>null\<close>.\<close>

definition null_player_message :: string where
  "null_player_message =
     ''Cannot read properties of null (reading '' @ [CHR 0x27] @ ''name'' @ [CHR 0x27] @ '')''"

text \<open>
  The player loop \<^verbatim>\<open>for (let i = 0; i < players.length; i++)\<close>, from index \<open>i\<close> on the
  players still to do. \<open>Inl\<close> is an exception, with its message and the state it leaves.
\<close>

fun process_players ::
  "env \<Rightarrow> string \<Rightarrow> string \<Rightarrow> string \<Rightarrow> counts_props \<Rightarrow> nat \<Rightarrow> roster_entry option list \<Rightarrow>
   run_state \<Rightarrow> (string \<times> run_state) + run_state" where
  "process_players e uid ev mid c i [] st = Inr st"
| "process_players e uid ev mid c i (None # ps) st = Inl (null_player_message, st)"
| "process_players e uid ev mid c i (Some player # ps) st =
     (let record = build_record uid ev mid player c i;
          st1 = st\<lparr>calls := calls st @ [Upsert record]\<rparr>
      in case upsert_error e record of
           Some msg \<Rightarrow> Inl (''Supabase upsert failed: '' @ msg, st1)
         | None \<Rightarrow>
             process_players e uid ev mid c (Suc i) ps
               (st1\<lparr>store := upsert (store st1) record,
                    playerSummary :=
                      track_player (playerSummary st1) (name player) (count_180s record)\<rparr>))"

text \<open>The body of the \<^verbatim>\<open>try\<close> block for one match.\<close>

definition try_match ::
  "env \<Rightarrow> string \<Rightarrow> string \<Rightarrow> string \<Rightarrow> run_state \<Rightarrow> (string \<times> run_state) + run_state" where
  "try_match e uid ev mid st =
     (let st1 = st\<lparr>calls := calls st @ [FetchPlayers mid]\<rparr>
      in case fetch_players e mid of
           PageThrew msg \<Rightarrow> Inl (msg, st1)
         | PageNotOk status \<Rightarrow>
             Inl (''Failed to fetch players data: '' @ string_of_nat status, st1)
         | PageNoInertia \<Rightarrow> Inl (''Could not find Inertia data in players page'', st1)
         | PageProps players \<Rightarrow>
             (let st2 = st1\<lparr>calls := calls st1 @ [FetchCounts mid]\<rparr>
              in case fetch_counts e mid of
                   PageThrew msg \<Rightarrow> Inl (msg, st2)
                 | PageNotOk status \<Rightarrow>
                     Inl (''Failed to fetch counts data: '' @ string_of_nat status, st2)
                 | PageNoInertia \<Rightarrow> Inl (''Could not find Inertia data in counts page'', st2)
                 | PageProps c \<Rightarrow> process_players e uid ev mid c 0 players st2))"

text \<open>One iteration of \<^verbatim>\<open>for (const matchId of matchIds)\<close>: the \<^verbatim>\<open>try\<close> block and its
  \<^verbatim>\<open>catch\<close>.\<close>

definition scrape_match :: "env \<Rightarrow> string \<Rightarrow> string \<Rightarrow> run_state \<Rightarrow> string \<Rightarrow> run_state" where
  "scrape_match e uid ev st mid =
     (case try_match e uid ev mid st of
        Inr st1 \<Rightarrow> st1\<lparr>successful := successful st1 + 1\<rparr>
      | Inl (msg, st1) \<Rightarrow>
          st1\<lparr>failed := failed st1 + 1,
              errors := errors st1 @ [''Match '' @ mid @ '': '' @ msg]\<rparr>)"

fun scrape_matches :: "env \<Rightarrow> string \<Rightarrow> string \<Rightarrow> string list \<Rightarrow> run_state \<Rightarrow> run_state" where
  "scrape_matches e uid ev [] st = st"
| "scrape_matches e uid ev (mid # mids) st =
     scrape_matches e uid ev mids (scrape_match e uid ev st mid)"

section \<open>The response\<close>

datatype json =
    JNull
  | JBool bool
  | JNum int
  | JStr string
  | JArr "json list"
  | JObj "(string \<times> json) list"

datatype response =
    TextResponse string
  | JsonResponse nat json

definition json_field :: "json \<Rightarrow> string \<Rightarrow> json option" where
  "json_field j k = (case j of JObj fs \<Rightarrow> map_of fs k | _ \<Rightarrow> None)"

definition error_response :: "nat \<Rightarrow> string \<Rightarrow> response" where
  "error_response status msg =
     JsonResponse status (JObj [(''success'', JBool False), (''error'', JStr msg)])"

text \<open>The summary; a property whose value is \<open>undefined\<close> is left out by
  \<^verbatim>\<open>JSON.stringify\<close>.\<close>

definition summary_json :: "nat \<Rightarrow> run_state \<Rightarrow> json" where
  "summary_json n st =
     JObj ([(''success'', JBool True),
            (''total_matches'', JNum (int n)),
            (''successful'', JNum (int (successful st))),
            (''failed'', JNum (int (failed st))),
            (''total_players'', JNum (int (length (playerSummary st)))),
            (''players'',
               JObj (map (\<lambda>(k, (mc, c)).
                            (k, JObj [(''match_count'', JNum (int mc)), (''count_180s'', JNum c)]))
                         (playerSummary st)))]
           @ (if length (errors st) > 0 then [(''errors'', JArr (map JStr (errors st)))]
              else []))"

text \<open>\<^verbatim>\<open>!event_url\<close>: a missing or empty string.\<close>

definition falsy_str :: "string option \<Rightarrow> bool" where
  "falsy_str v = (case v of None \<Rightarrow> True | Some s \<Rightarrow> s = [])"

definition missing_fields_message :: "string option \<Rightarrow> string option \<Rightarrow> string" where
  "missing_fields_message ev_url ev_name =
     ''Missing required fields. event_url: ''
       @ (if falsy_str ev_url then ''missing'' else ''present'')
       @ '', event_name: ''
       @ (if falsy_str ev_name then ''missing'' else ''present'')"

text \<open>
  A request: the CORS preflight, a body that \<^verbatim>\<open>req.json()\<close> rejects, or a body with its
  \<^verbatim>\<open>event_url\<close> and \<^verbatim>\<open>event_name\<close>. (The 400 response for missing fields also echoes the
  body as \<^verbatim>\<open>received\<close>, which is not modelled.)
\<close>

datatype request =
    Preflight
  | BadBody string
  | Post "string option" "string option"

definition init_state :: "stat_record list \<Rightarrow> call list \<Rightarrow> run_state" where
  "init_state db cs =
     \<lparr>store = db, calls = cs, successful = 0, failed = 0, errors = [], playerSummary = []\<rparr>"

text \<open>The handler: the response, the store and the calls made.\<close>

definition scrape_event ::
  "env \<Rightarrow> request \<Rightarrow> stat_record list \<Rightarrow> response \<times> stat_record list \<times> call list" where
  "scrape_event e req db =
     (case req of
        Preflight \<Rightarrow> (TextResponse ''ok'', db, [])
      | BadBody msg \<Rightarrow> (error_response 500 msg, db, [])
      | Post ev_url ev_name \<Rightarrow>
          if falsy_str ev_url \<or> falsy_str ev_name
          then (error_response 400 (missing_fields_message ev_url ev_name), db, [])
          else
            (case auth_user e of
               None \<Rightarrow> (error_response 401 ''Not authenticated'', db, [])
             | Some uid \<Rightarrow>
                 (case match_event (the ev_url) of
                    None \<Rightarrow> (error_response 400 ''Invalid event URL format'', db, [])
                  | Some eventId \<Rightarrow>
                      (case fetch_matches e eventId of
                         ApiThrew msg \<Rightarrow> (error_response 500 msg, db, [FetchMatches eventId])
                       | ApiNotOk status \<Rightarrow>
                           (error_response 500
                              (''API2 request failed: '' @ string_of_nat status),
                            db, [FetchMatches eventId])
                       | ApiData sections \<Rightarrow>
                           (let matchIds = collect_match_ids sections
                            in if length matchIds = 0
                               then (error_response 400 ''No matches found in event'', db,
                                     [FetchMatches eventId])
                               else
                                 (let st = scrape_matches e uid (the ev_name) matchIds
                                             (init_state db [FetchMatches eventId])
                                  in (JsonResponse 200 (summary_json (length matchIds) st),
                                      store st, calls st)))))))"

section \<open>What a run does, read off the state\<close>

definition result_error :: "(string \<times> run_state) + run_state \<Rightarrow> string option" where
  "result_error r = (case r of Inl (msg, st) \<Rightarrow> Some msg | Inr st \<Rightarrow> None)"

definition result_state :: "(string \<times> run_state) + run_state \<Rightarrow> run_state" where
  "result_state r = (case r of Inl (msg, st) \<Rightarrow> st | Inr st \<Rightarrow> st)"

text \<open>The message of the exception that the \<^verbatim>\<open>try\<close> block of a match ends in, if any.\<close>

definition match_error :: "env \<Rightarrow> string \<Rightarrow> string \<Rightarrow> string \<Rightarrow> string option" where
  "match_error e uid ev mid = result_error (try_match e uid ev mid (init_state [] []))"

text \<open>The records that the player loop writes before it ends, in order.\<close>

fun players_writes ::
  "env \<Rightarrow> string \<Rightarrow> string \<Rightarrow> string \<Rightarrow> counts_props \<Rightarrow> nat \<Rightarrow> roster_entry option list \<Rightarrow>
   stat_record list" where
  "players_writes e uid ev mid c i [] = []"
| "players_writes e uid ev mid c i (None # ps) = []"
| "players_writes e uid ev mid c i (Some player # ps) =
     (case upsert_error e (build_record uid ev mid player c i) of
        Some msg \<Rightarrow> []
      | None \<Rightarrow> build_record uid ev mid player c i # players_writes e uid ev mid c (Suc i) ps)"

definition match_writes :: "env \<Rightarrow> string \<Rightarrow> string \<Rightarrow> string \<Rightarrow> stat_record list" where
  "match_writes e uid ev mid =
     (case fetch_players e mid of
        PageProps players \<Rightarrow>
          (case fetch_counts e mid of
             PageProps c \<Rightarrow> players_writes e uid ev mid c 0 players
           | _ \<Rightarrow> [])
      | _ \<Rightarrow> [])"

text \<open>The records of the players \<open>ps\<close>, who stand at the positions from \<open>i\<close> on.\<close>

fun build_records ::
  "string \<Rightarrow> string \<Rightarrow> string \<Rightarrow> counts_props \<Rightarrow> nat \<Rightarrow> roster_entry list \<Rightarrow> stat_record list" where
  "build_records uid ev mid c i [] = []"
| "build_records uid ev mid c i (p # ps) =
     build_record uid ev mid p c i # build_records uid ev mid c (Suc i) ps"

text \<open>The records that a whole invocation writes, in order.\<close>

definition event_writes :: "env \<Rightarrow> request \<Rightarrow> stat_record list" where
  "event_writes e req =
     (case req of
        Post ev_url ev_name \<Rightarrow>
          if falsy_str ev_url \<or> falsy_str ev_name then []
          else
            (case auth_user e of
               None \<Rightarrow> []
             | Some uid \<Rightarrow>
                 (case match_event (the ev_url) of
                    None \<Rightarrow> []
                  | Some eventId \<Rightarrow>
                      (case fetch_matches e eventId of
                         ApiData sections \<Rightarrow>
                           concat (map (match_writes e uid (the ev_name))
                                     (collect_match_ids sections))
                       | _ \<Rightarrow> [])))
      | _ \<Rightarrow> [])"

text \<open>The failed matches of a list of match identifiers, each with its message.\<close>

definition match_failures ::
  "env \<Rightarrow> string \<Rightarrow> string \<Rightarrow> string list \<Rightarrow> (string \<times> string) list" where
  "match_failures e uid ev mids =
     concat (map (\<lambda>mid. case match_error e uid ev mid of None \<Rightarrow> [] | Some msg \<Rightarrow> [(mid, msg)])
               mids)"

definition error_line :: "string \<times> string \<Rightarrow> string" where
  "error_line p = ''Match '' @ fst p @ '': '' @ snd p"

text \<open>The calls made for single matches, as opposed to the discovery call.\<close>

fun is_downstream :: "call \<Rightarrow> bool" where
  "is_downstream (FetchMatches eid) = False"
| "is_downstream (FetchPlayers mid) = True"
| "is_downstream (FetchCounts mid) = True"
| "is_downstream (Upsert r) = True"

definition response_body :: "response \<Rightarrow> json" where
  "response_body r = (case r of TextResponse t \<Rightarrow> JNull | JsonResponse status body \<Rightarrow> body)"

text \<open>An entry of the form \<^verbatim>\<open>{match_id: string, message: string}\<close>.\<close>

fun is_error_object :: "json \<Rightarrow> bool" where
  "is_error_object (JObj fs) =
     (case map_of fs ''match_id'' of
        Some (JStr mid) \<Rightarrow> (case map_of fs ''message'' of Some (JStr msg) \<Rightarrow> True | _ \<Rightarrow> False)
      | _ \<Rightarrow> False)"
| "is_error_object _ = False"

text \<open>The numeric keys of the data model: decimal numerals.\<close>

definition decimal_key :: "string \<Rightarrow> bool" where
  "decimal_key k = (k \<noteq> [] \<and> list_all (\<lambda>c. c \<in> set ''0123456789'') k)"

section \<open>AggregationReader\<close>

text \<open>
  The leaderboard handler reads the relation \<^verbatim>\<open>player_stats\<close>, which is not defined in
  the sources. Spec 4.6 describes it: one row per player of the matching records, with
  the player's weighted average.
\<close>

text \<open>The matching records of a player, and the sums over them.\<close>

definition records_of :: "stat_record list \<Rightarrow> string \<Rightarrow> stat_record list" where
  "records_of rs n = filter (\<lambda>r. rec_name r = n) rs"

definition total_legs :: "stat_record list \<Rightarrow> int" where
  "total_legs rs = sum_list (map legs_played rs)"

definition weighted_sum :: "stat_record list \<Rightarrow> real" where
  "weighted_sum rs = sum_list (map (\<lambda>r. average r * real_of_int (legs_played r)) rs)"

text \<open>
  Modelled from the spec: the computation of \<^verbatim>\<open>weighted_3da\<close> is missing from the sources;
  spec 4.6 gives \<open>weighted_average = \<Sum>(average\<^sub>i \<times> legs_played\<^sub>i) / \<Sum>(legs_played\<^sub>i)\<close> over
  the matching records of the player. The quotient has no value when the legs sum to 0
  (\<open>None\<close>, the \<open>NULL\<close> that the handler replaces by 0).
\<close>

definition weighted_average :: "stat_record list \<Rightarrow> real option" where
  "weighted_average rs =
     (if total_legs rs = 0 then None else Some (weighted_sum rs / real_of_int (total_legs rs)))"

record player_stats_row =
  ps_name :: string
  weighted_3da :: "real option"
  ps_legs_played :: "int option"
  total_180s :: "int option"
  is_qualified :: "bool option"

text \<open>Modelled from the spec: the rows of \<^verbatim>\<open>player_stats\<close>, whose definition is missing
  from the sources: one row per player name of the matching records; the qualification
  flag comes from a lookup that the caller supplies.\<close>

definition player_stats :: "(string \<Rightarrow> bool) \<Rightarrow> stat_record list \<Rightarrow> player_stats_row list" where
  "player_stats qualified rs =
     map (\<lambda>n. \<lparr>ps_name = n,
               weighted_3da = weighted_average (records_of rs n),
               ps_legs_played = Some (total_legs (records_of rs n)),
               total_180s = Some (sum_list (map count_180s (records_of rs n))),
               is_qualified = Some (qualified n)\<rparr>)
         (remdups (map rec_name rs))"

text \<open>
  \<^verbatim>\<open>.order('weighted_3da', { ascending: false })\<close>: the rows in descending order of the
  column, as the database returns them (\<open>NULL\<close> sorts first in a descending order; the
  order of equal values is not fixed, the model keeps one).
\<close>

fun precedes :: "real option \<Rightarrow> real option \<Rightarrow> bool" where
  "precedes None b = True"
| "precedes (Some x) None = False"
| "precedes (Some x) (Some y) = (y \<le> x)"

fun insert_desc :: "player_stats_row \<Rightarrow> player_stats_row list \<Rightarrow> player_stats_row list" where
  "insert_desc r [] = [r]"
| "insert_desc r (x # xs) =
     (if precedes (weighted_3da r) (weighted_3da x) then r # x # xs else x # insert_desc r xs)"

definition order_desc :: "player_stats_row list \<Rightarrow> player_stats_row list" where
  "order_desc rows = foldr insert_desc rows []"






section \<open>Example data\<close>

definition alice :: roster_entry where
  "alice = \<lparr>name = ''Alice'', total_wins = 3, total_games = 5, average_01 = 80,
            card_link = Some ''https://recap.dartconnect.com/card/1''\<rparr>"

definition bob :: roster_entry where
  "bob = \<lparr>name = ''Bob'', total_wins = 2, total_games = 5, average_01 = 72, card_link = None\<rparr>"

definition example_counts :: counts_props where
  "example_counts =
     \<lparr>distribution = [Some [(''100'', 3), (''140'', 1), (''180'', 2)]],
      first_nine = [Some \<lparr>fn_average = Some 85\<rparr>],
      checkout_stats = []\<rparr>"

definition zero_first_nine_counts :: counts_props where
  "zero_first_nine_counts =
     \<lparr>distribution = [], first_nine = [Some \<lparr>fn_average = Some 0\<rparr>], checkout_stats = []\<rparr>"

text \<open>An event of three matches; the roster page of the second answers with status 500.\<close>

definition example_env :: env where
  "example_env =
     \<lparr>auth_user = Some ''u1'',
      fetch_matches = (\<lambda>eid. ApiData (Some [Some [Some ''m1'', Some ''m2''], None,
                                              Some [None, Some ''m3'']])),
      fetch_players = (\<lambda>mid. if mid = ''m2'' then PageNotOk 500
                              else PageProps [Some alice, Some bob]),
      fetch_counts = (\<lambda>mid. PageProps example_counts),
      upsert_error = (\<lambda>r. None)\<rparr>"

definition example_request :: request where
  "example_request = Post (Some ''https://tv.dartconnect.com/event/ev1'') (Some ''Event 1'')"

text \<open>One match of two players; the store rejects the record of the player named \<open>n\<close>.\<close>

definition rejecting_env :: "string \<Rightarrow> env" where
  "rejecting_env n =
     \<lparr>auth_user = Some ''u1'',
      fetch_matches = (\<lambda>eid. ApiData (Some [Some [Some ''m1'']])),
      fetch_players = (\<lambda>mid. PageProps [Some alice, Some bob]),
      fetch_counts = (\<lambda>mid. PageProps example_counts),
      upsert_error = (\<lambda>r. if rec_name r = n then Some ''timeout'' else None)\<rparr>"

text \<open>An event whose discovery answer has no match identifier.\<close>

definition empty_event_env :: env where
  "empty_event_env =
     \<lparr>auth_user = Some ''u1'',
      fetch_matches = (\<lambda>eid. ApiData (Some [Some [None], None])),
      fetch_players = (\<lambda>mid. PageProps [Some alice, Some bob]),
      fetch_counts = (\<lambda>mid. PageProps example_counts),
      upsert_error = (\<lambda>r. None)\<rparr>"

text \<open>A store that holds an older record of Alice for the match \<open>m1\<close>.\<close>

definition stale_store :: "stat_record list" where
  "stale_store = [build_record ''u1'' ''Event 1'' ''m1'' alice zero_first_nine_counts 0]"






section \<open>Properties of the record builder\<close>

lemma add_if_truthy_value: "add_if_truthy acc v = acc + or_zero v"
  by (simp add: add_if_truthy_def or_zero_def split: option.splits)

lemma or_zero_dist_value: "or_zero (map_of d k) = dist_value d k"
  by (simp add: or_zero_def dist_value_def)

lemma calc_140_plus_sum:
  "calc_140_plus d =
     dist_value d ''140'' + dist_value d ''141'' + dist_value d ''160'' + dist_value d ''171''
       + dist_value d ''180''"
  by (simp add: calc_140_plus_def add_if_truthy_value or_zero_dist_value Let_def)

lemma build_record_key: "key_of (build_record uid ev mid player c i) = (uid, ev, mid, name player)"
  by (simp add: key_of_def build_record_def Let_def)

lemma build_record_tallies:
  "count_180s (build_record uid ev mid player c i) = dist_value (dist_at c i) ''180''"
  "count_140_plus (build_record uid ev mid player c i) = calc_140_plus (dist_at c i)"
  "count_100_plus (build_record uid ev mid player c i) =
     dist_value (dist_at c i) ''100'' + calc_140_plus (dist_at c i)"
  by (simp_all add: build_record_def Let_def or_zero_dist_value)

lemma build_record_first_nine:
  "first_nine_avg (build_record uid ev mid player c i) =
     or_null_real (fn_average (first_nine_at c i))"
  by (simp add: build_record_def Let_def)

text \<open>
  Claim C1. For the distribution map \<^verbatim>\<open>distribution[i] || {}\<close> of a player, the built record
  has \<open>count_180s\<close> equal to the value at key 180 (0 if absent), \<open>count_140_plus\<close> equal to
  the sum of the values at 140, 141, 160 and 171 plus \<open>count_180s\<close>, and \<open>count_100_plus\<close>
  equal to the value at 100 plus \<open>count_140_plus\<close>. The distribution
  \<^verbatim>\<open>{"100":3,"140":1,"180":2}\<close> gives 2, 3 and 6.
\<close>

theorem tallies_from_distribution:
  "count_180s (build_record uid ev mid player c i) = dist_value (dist_at c i) ''180''
   \<and> count_140_plus (build_record uid ev mid player c i) =
       dist_value (dist_at c i) ''140'' + dist_value (dist_at c i) ''141''
         + dist_value (dist_at c i) ''160'' + dist_value (dist_at c i) ''171''
         + count_180s (build_record uid ev mid player c i)
   \<and> count_100_plus (build_record uid ev mid player c i) =
       dist_value (dist_at c i) ''100'' + count_140_plus (build_record uid ev mid player c i)
   \<and> dist_at example_counts 0 = [(''100'', 3), (''140'', 1), (''180'', 2)]
   \<and> count_180s (build_record uid ev mid player example_counts 0) = 2
   \<and> count_140_plus (build_record uid ev mid player example_counts 0) = 3
   \<and> count_100_plus (build_record uid ev mid player example_counts 0) = 6"
proof -
  have ex: "dist_at example_counts 0 = [(''100'', 3), (''140'', 1), (''180'', 2)]"
    by (simp add: dist_at_def example_counts_def js_index_def)
  show ?thesis
    by (simp add: build_record_tallies calc_140_plus_sum ex dist_value_def)
qed

lemma math_max_Fin: "xs \<noteq> [] \<Longrightarrow> math_max (map Fin xs) = Fin (Max (set xs))"
proof (induction xs)
  case Nil
  then show ?case by simp
next
  case (Cons x xs)
  show ?case
  proof (cases "xs = []")
    case True
    then show ?thesis by simp
  next
    case False
    with Cons.IH have "math_max (map Fin xs) = Fin (Max (set xs))" by simp
    with False show ?thesis by (simp add: max.commute)
  qed
qed

lemma decimal_char:
  assumes "c \<in> set ''0123456789''"
  shows "is_digit 10 c" and "\<not> is_space c" and "c \<noteq> CHR ''-''" and "c \<noteq> CHR ''+''"
    and "c \<noteq> CHR ''x''" and "c \<noteq> CHR ''X''"
    and "0 \<le> the (digit_val c)" and "the (digit_val c) \<le> 9"
  using assms by (auto simp: is_digit_def digit_val_def is_space_def)

lemma digits_value_bound:
  assumes "list_all (\<lambda>c. c \<in> set ''0123456789'') k" and "0 \<le> acc"
  shows "0 \<le> digits_value 10 acc k \<and> digits_value 10 acc k < (acc + 1) * 10 ^ length k"
  using assms
proof (induction k arbitrary: acc)
  case Nil
  then show ?case by simp
next
  case (Cons c cs)
  from Cons.prems(1) have c: "0 \<le> the (digit_val c)" "the (digit_val c) \<le> 9"
    and cs: "list_all (\<lambda>c. c \<in> set ''0123456789'') cs"
    using decimal_char(7,8) by simp_all
  let ?a = "acc * 10 + the (digit_val c)"
  from c(1) Cons.prems(2) have a: "0 \<le> ?a" by simp
  from Cons.IH [OF cs a]
  have lo: "0 \<le> digits_value 10 ?a cs" and hi: "digits_value 10 ?a cs < (?a + 1) * 10 ^ length cs"
    by simp_all
  have "(?a + 1) * 10 ^ length cs \<le> (acc * 10 + 10) * (10::int) ^ length cs"
    using c(2) by (intro mult_right_mono) simp_all
  also have "\<dots> = (acc + 1) * 10 ^ length (c # cs)"
    by (simp add: algebra_simps)
  finally have le: "(?a + 1) * 10 ^ length cs \<le> (acc + 1) * 10 ^ length (c # cs)" .
  from hi le have "digits_value 10 ?a cs < (acc + 1) * 10 ^ length (c # cs)"
    by (rule less_le_trans)
  with lo show ?case by simp
qed

lemma to_double_exact: "n < 2 ^ 53 \<Longrightarrow> to_double n = Some n"
  by (simp add: to_double_def)

text \<open>A decimal numeral of at most 15 digits is read exactly.\<close>

lemma parseInt_decimal:
  assumes "decimal_key k" and "length k \<le> 15"
  shows "parseInt k = Some (Fin (digits_value 10 0 k))"
proof -
  from assms obtain c cs where k: "k = c # cs" and c: "c \<in> set ''0123456789''"
    and cs: "list_all (\<lambda>c. c \<in> set ''0123456789'') cs"
    by (cases k) (auto simp: decimal_key_def)
  have all: "\<forall>x\<in>set k. is_digit 10 x"
    using assms decimal_char(1) by (auto simp: decimal_key_def list_all_iff)
  then have tw: "takeWhile (is_digit 10) k = k" by simp
  have pu: "parse_unsigned k = Some (digits_value 10 0 k)"
  proof (cases cs)
    case Nil
    with k tw show ?thesis by (simp add: parse_unsigned_def parse_digits_def)
  next
    case (Cons d rest)
    with cs have "d \<in> set ''0123456789''" by simp
    then have "d \<noteq> CHR ''x''" "d \<noteq> CHR ''X''" using decimal_char by blast+
    with k Cons tw show ?thesis
      by (simp add: parse_unsigned_def parse_digits_def)
  qed
  have "list_all (\<lambda>c. c \<in> set ''0123456789'') k"
    using assms(1) by (simp add: decimal_key_def)
  then have "digits_value 10 0 k < 10 ^ length k"
    using digits_value_bound [of k 0] by simp
  also have "(10::int) ^ length k \<le> 10 ^ 15"
    using assms(2) by (intro power_increasing) simp_all
  also have "(10::int) ^ 15 < 2 ^ 53" by simp
  finally have "number_of False (digits_value 10 0 k) = Fin (digits_value 10 0 k)"
    by (simp add: number_of_def to_double_exact)
  moreover have "dropWhile is_space k = k" using k c decimal_char(2) by simp
  ultimately show ?thesis
    using k c pu decimal_char(3,4) [OF c] by (simp add: parseInt_def)
qed

text \<open>
  On a distribution that is not empty and whose keys are decimal numerals of at most 15
  digits, the highest score is the greatest key.
\<close>

lemma highest_score_numeric_keys:
  assumes "d \<noteq> []" and "list_all decimal_key (map fst d)"
    and "list_all (\<lambda>k. length k \<le> 15) (map fst d)"
  shows "highest_score_of d = Fin (Max (set (map (\<lambda>k. digits_value 10 0 k) (map fst d))))"
proof -
  let ?ks = "map fst d"
  let ?vs = "map (\<lambda>k. digits_value 10 0 k) ?ks"
  have eq: "map (\<lambda>k. or_zero_num (parseInt k)) ?ks = map Fin ?vs"
    using assms(2,3) by (auto simp: list_all_iff parseInt_decimal or_zero_num_def)
  have ne: "?vs \<noteq> []"
    using assms(1) by simp
  have "highest_score_of d = math_max (map Fin ?vs)"
    unfolding highest_score_of_def eq ..
  also have "\<dots> = Fin (Max (set ?vs))"
    by (rule math_max_Fin [OF ne])
  finally show ?thesis .
qed

text \<open>
  Claim C2. The highest score of a record is the greatest numeric key of the distribution
  map, and 0 when the map is empty. On the empty map (also the default when
  \<^verbatim>\<open>distribution[i]\<close> is missing) \<^verbatim>\<open>Math.max\<close> is called without arguments and the
  record holds \<open>-Infinity\<close>, not 0.
\<close>

theorem highest_score_empty_distribution:
  "highest_score_of [] = NegInfinity
   \<and> highest_score
        (build_record uid ev mid player
           \<lparr>distribution = [], first_nine = [], checkout_stats = []\<rparr> 0) = NegInfinity
   \<and> highest_score
        (build_record uid ev mid player
           \<lparr>distribution = [Some []], first_nine = [], checkout_stats = []\<rparr> 0) = NegInfinity
   \<and> highest_score
        (build_record uid ev mid player
           \<lparr>distribution = [Some []], first_nine = [], checkout_stats = []\<rparr> 0) \<noteq> Fin 0"
  by (simp add: build_record_def Let_def highest_score_of_def dist_at_def js_index_def)

text \<open>
  Claim C8, as stated, fails on a first-nine average that is present with the value 0:
  \<^verbatim>\<open>firstNineStats.average || null\<close> gives \<open>null\<close>.
\<close>

theorem first_nine_zero_counterexample:
  "fn_average (first_nine_at zero_first_nine_counts 0) = Some 0
   \<and> first_nine_avg (build_record ''u1'' ''Event 1'' ''m1'' alice zero_first_nine_counts 0) = None"
  by (simp add: build_record_first_nine first_nine_at_def zero_first_nine_counts_def js_index_def
      or_null_real_def)

text \<open>
  Claim C8, amended. For every player index \<open>i\<close>, the first-nine average of the built record
  is \<^verbatim>\<open>first_nine[i].average\<close> when that value is present and not 0, and is \<open>null\<close> when it
  is absent (also when \<^verbatim>\<open>first_nine[i]\<close> is missing) or 0; it is never 0.
\<close>

theorem first_nine_average_or_null:
  "(\<forall>a. fn_average (first_nine_at c i) = Some a \<and> a \<noteq> 0 \<longrightarrow>
        first_nine_avg (build_record uid ev mid player c i) = Some a)
   \<and> (fn_average (first_nine_at c i) = None \<or> fn_average (first_nine_at c i) = Some 0 \<longrightarrow>
        first_nine_avg (build_record uid ev mid player c i) = None)
   \<and> (length (first_nine c) \<le> i \<longrightarrow>
        first_nine_avg (build_record uid ev mid player c i) = None)
   \<and> first_nine_avg (build_record uid ev mid player c i) \<noteq> Some 0"
  by (auto simp: build_record_first_nine or_null_real_def first_nine_at_def js_index_def
      split: option.splits)

theorem first_nine_average_or_null_witness:
  "fn_average (first_nine_at example_counts 0) = Some 85
   \<and> first_nine_avg (build_record ''u1'' ''Event 1'' ''m1'' alice example_counts 0) = Some 85
   \<and> fn_average (first_nine_at zero_first_nine_counts 0) = Some 0
   \<and> first_nine_avg (build_record ''u1'' ''Event 1'' ''m1'' alice zero_first_nine_counts 0) = None
   \<and> length (first_nine example_counts) \<le> 1
   \<and> first_nine_avg (build_record ''u1'' ''Event 1'' ''m1'' bob example_counts 1) = None"
proof -
  have a: "fn_average (first_nine_at example_counts 0) = Some 85"
    by (simp add: first_nine_at_def example_counts_def js_index_def)
  have z: "fn_average (first_nine_at zero_first_nine_counts 0) = Some 0"
    by (simp add: first_nine_at_def zero_first_nine_counts_def js_index_def)
  have l: "length (first_nine example_counts) \<le> 1"
    by (simp add: example_counts_def)
  show ?thesis
    using a z l
      first_nine_average_or_null [of example_counts 0 "''u1''" "''Event 1''" "''m1''" alice]
      first_nine_average_or_null [of zero_first_nine_counts 0 "''u1''" "''Event 1''" "''m1''" alice]
      first_nine_average_or_null [of example_counts 1 "''u1''" "''Event 1''" "''m1''" bob]
    by simp
qed

section \<open>Properties of the store\<close>

lemma lookup_Nil: "lookup [] k = None"
  by (simp add: lookup_def)

lemma lookup_Cons: "lookup (x # xs) k = (if key_of x = k then Some x else lookup xs k)"
  by (simp add: lookup_def)

lemma lookup_None_iff: "lookup db k = None \<longleftrightarrow> k \<notin> set (map key_of db)"
  by (induction db) (auto simp: lookup_Nil lookup_Cons)

lemma keys_upsert:
  "map key_of (upsert db r) =
     (if key_of r \<in> set (map key_of db) then map key_of db else map key_of db @ [key_of r])"
  by (induction db) auto

lemma set_keys_upsert: "set (map key_of (upsert db r)) = insert (key_of r) (set (map key_of db))"
  by (auto simp: keys_upsert)

lemma distinct_upsert: "distinct (map key_of db) \<Longrightarrow> distinct (map key_of (upsert db r))"
  by (simp add: keys_upsert)

lemma lookup_upsert:
  "lookup (upsert db r) k = (if k = key_of r then Some r else lookup db k)"
  by (induction db) (auto simp: lookup_Nil lookup_Cons)

lemma length_upsert:
  "length (upsert db r) = (if key_of r \<in> set (map key_of db) then length db else Suc (length db))"
  by (induction db) auto

lemma distinct_foldl_upsert:
  "distinct (map key_of db) \<Longrightarrow> distinct (map key_of (foldl upsert db rs))"
  by (induction rs arbitrary: db) (simp_all add: distinct_upsert)

lemma set_keys_foldl_upsert:
  "set (map key_of (foldl upsert db rs)) = set (map key_of db) \<union> set (map key_of rs)"
  by (induction rs arbitrary: db) (auto simp: set_keys_upsert simp del: set_map)

lemma keys_foldl_upsert_known:
  "set (map key_of rs) \<subseteq> set (map key_of db) \<Longrightarrow> map key_of (foldl upsert db rs) = map key_of db"
proof (induction rs arbitrary: db)
  case Nil
  then show ?case by simp
next
  case (Cons r rs)
  from Cons.prems have same: "map key_of (upsert db r) = map key_of db"
    by (simp add: keys_upsert)
  with Cons.prems have "set (map key_of rs) \<subseteq> set (map key_of (upsert db r))"
    by simp
  then have "map key_of (foldl upsert (upsert db r) rs) = map key_of (upsert db r)"
    by (rule Cons.IH)
  with same show ?case by simp
qed

lemma lookup_append:
  "lookup (xs @ ys) k = (case lookup xs k of None \<Rightarrow> lookup ys k | Some x \<Rightarrow> Some x)"
  by (induction xs) (simp_all add: lookup_Nil lookup_Cons)

text \<open>The last record of a sequence of writes that has a given key.\<close>

lemma lookup_foldl_upsert:
  "lookup (foldl upsert db rs) k =
     (case lookup (rev rs) k of None \<Rightarrow> lookup db k | Some r \<Rightarrow> Some r)"
proof (induction rs arbitrary: db)
  case Nil
  then show ?case by (simp add: lookup_Nil)
next
  case (Cons r rs)
  have "lookup (rev rs @ [r]) k =
          (case lookup (rev rs) k of None \<Rightarrow> (if key_of r = k then Some r else None) | Some x \<Rightarrow> Some x)"
    by (simp add: lookup_append lookup_Cons lookup_Nil split: option.splits)
  with Cons show ?case
    by (auto simp: lookup_upsert split: option.splits)
qed

lemma store_eqI:
  assumes "distinct (map key_of xs)" and "map key_of xs = map key_of ys"
    and "\<And>k. lookup xs k = lookup ys k"
  shows "xs = ys"
  using assms
proof (induction xs arbitrary: ys)
  case Nil
  then show ?case by simp
next
  case (Cons x xs)
  from Cons.prems(2) obtain y ys' where ys: "ys = y # ys'" and kxy: "key_of x = key_of y"
    and keys: "map key_of xs = map key_of ys'"
    by (cases ys) auto
  from Cons.prems(3) [of "key_of x"] ys kxy have xy: "x = y"
    by (simp add: lookup_Cons)
  have nin: "key_of x \<notin> set (map key_of xs)" using Cons.prems(1) by simp
  have "lookup xs k = lookup ys' k" for k
  proof (cases "k = key_of x")
    case True
    with nin keys show ?thesis
      by (metis lookup_None_iff)
  next
    case False
    with Cons.prems(3) [of k] ys xy show ?thesis
      by (auto simp: lookup_Cons)
  qed
  with Cons.IH [of ys'] Cons.prems(1) keys have "xs = ys'" by simp
  with ys xy show ?case by simp
qed

lemma foldl_upsert_twice:
  assumes "distinct (map key_of db)"
  shows "foldl upsert (foldl upsert db rs) rs = foldl upsert db rs"
proof (rule store_eqI)
  show "distinct (map key_of (foldl upsert (foldl upsert db rs) rs))"
    using assms by (simp add: distinct_foldl_upsert)
  have "set (map key_of rs) \<subseteq> set (map key_of (foldl upsert db rs))"
    by (simp add: set_keys_foldl_upsert del: set_map)
  then show "map key_of (foldl upsert (foldl upsert db rs) rs) = map key_of (foldl upsert db rs)"
    by (rule keys_foldl_upsert_known)
  show "lookup (foldl upsert (foldl upsert db rs) rs) k = lookup (foldl upsert db rs) k" for k
    by (simp add: lookup_foldl_upsert split: option.splits)
qed

section \<open>Properties of the match loop\<close>

lemma result_simps:
  "result_error (Inr st) = None" "result_error (Inl (msg, st)) = Some msg"
  "result_state (Inr st) = st" "result_state (Inl (msg, st)) = st"
  by (simp_all add: result_error_def result_state_def)

lemma process_players_error_state:
  "result_error (process_players e uid ev mid c i ps st) =
   result_error (process_players e uid ev mid c i ps st')"
proof (induction ps arbitrary: i st st')
  case Nil
  then show ?case by (simp add: result_simps)
next
  case (Cons p ps)
  then show ?case
    by (cases p) (auto simp: result_simps Let_def split: option.splits)
qed

lemma process_players_store:
  "store (result_state (process_players e uid ev mid c i ps st)) =
   foldl upsert (store st) (players_writes e uid ev mid c i ps)"
proof (induction ps arbitrary: i st)
  case Nil
  then show ?case by (simp add: result_simps)
next
  case (Cons p ps)
  then show ?case
    by (cases p) (simp_all add: result_simps Let_def split: option.splits)
qed

lemma process_players_counters:
  "successful (result_state (process_players e uid ev mid c i ps st)) = successful st"
  "failed (result_state (process_players e uid ev mid c i ps st)) = failed st"
  "errors (result_state (process_players e uid ev mid c i ps st)) = errors st"
proof (induction ps arbitrary: i st)
  case Nil
  { case 1 show ?case by (simp add: result_simps) }
  { case 2 show ?case by (simp add: result_simps) }
  { case 3 show ?case by (simp add: result_simps) }
next
  case (Cons p ps)
  { case 1 with Cons show ?case
      by (cases p) (simp_all add: result_simps Let_def split: option.splits) }
  { case 2 with Cons show ?case
      by (cases p) (simp_all add: result_simps Let_def split: option.splits) }
  { case 3 with Cons show ?case
      by (cases p) (simp_all add: result_simps Let_def split: option.splits) }
qed



lemma try_match_error: "result_error (try_match e uid ev mid st) = match_error e uid ev mid"
  unfolding match_error_def try_match_def
  by (auto simp: result_simps Let_def intro: process_players_error_state
      split: page_outcome.splits)

text \<open>The ways in which a match fails: either page is not fetched, is not \<^verbatim>\<open>ok\<close>, holds no
  embedded block or does not parse, or the player loop raises.\<close>

lemma match_error_cases:
  "match_error e uid ev mid =
     (case fetch_players e mid of
        PageThrew msg \<Rightarrow> Some msg
      | PageNotOk status \<Rightarrow> Some (''Failed to fetch players data: '' @ string_of_nat status)
      | PageNoInertia \<Rightarrow> Some ''Could not find Inertia data in players page''
      | PageProps players \<Rightarrow>
          (case fetch_counts e mid of
             PageThrew msg \<Rightarrow> Some msg
           | PageNotOk status \<Rightarrow> Some (''Failed to fetch counts data: '' @ string_of_nat status)
           | PageNoInertia \<Rightarrow> Some ''Could not find Inertia data in counts page''
           | PageProps c \<Rightarrow>
               result_error (process_players e uid ev mid c 0 players (init_state [] []))))"
  unfolding match_error_def try_match_def
  by (auto simp: result_simps Let_def intro: process_players_error_state
      split: page_outcome.splits)

lemma try_match_store:
  "store (result_state (try_match e uid ev mid st)) =
   foldl upsert (store st) (match_writes e uid ev mid)"
  unfolding try_match_def match_writes_def
  by (simp add: result_simps Let_def process_players_store split: page_outcome.splits)

lemma try_match_counters:
  "successful (result_state (try_match e uid ev mid st)) = successful st"
  "failed (result_state (try_match e uid ev mid st)) = failed st"
  "errors (result_state (try_match e uid ev mid st)) = errors st"
  unfolding try_match_def
  by (simp_all add: result_simps Let_def process_players_counters split: page_outcome.splits)


lemma scrape_match_result:
  "scrape_match e uid ev st mid =
     (case result_error (try_match e uid ev mid st) of
        None \<Rightarrow> (result_state (try_match e uid ev mid st))
                  \<lparr>successful := successful (result_state (try_match e uid ev mid st)) + 1\<rparr>
      | Some msg \<Rightarrow> (result_state (try_match e uid ev mid st))
                  \<lparr>failed := failed (result_state (try_match e uid ev mid st)) + 1,
                   errors := errors (result_state (try_match e uid ev mid st))
                               @ [''Match '' @ mid @ '': '' @ msg]\<rparr>)"
  by (simp add: scrape_match_def result_simps split: sum.splits prod.splits)

lemma scrape_match_store:
  "store (scrape_match e uid ev st mid) = foldl upsert (store st) (match_writes e uid ev mid)"
  by (simp add: scrape_match_result try_match_store split: option.splits)

lemma scrape_match_successful:
  "successful (scrape_match e uid ev st mid) =
     successful st + (if match_error e uid ev mid = None then 1 else 0)"
  by (simp add: scrape_match_result try_match_error try_match_counters split: option.splits)

lemma scrape_match_failed:
  "failed (scrape_match e uid ev st mid) =
     failed st + (if match_error e uid ev mid = None then 0 else 1)"
  by (simp add: scrape_match_result try_match_error try_match_counters split: option.splits)

lemma scrape_match_errors:
  "errors (scrape_match e uid ev st mid) =
     errors st @ map error_line (match_failures e uid ev [mid])"
  by (simp add: scrape_match_result try_match_error try_match_counters match_failures_def
      error_line_def split: option.splits)


lemma match_failures_Cons:
  "match_failures e uid ev (mid # mids) =
     match_failures e uid ev [mid] @ match_failures e uid ev mids"
  by (simp add: match_failures_def)

lemma scrape_matches_store:
  "store (scrape_matches e uid ev mids st) =
     foldl upsert (store st) (concat (map (match_writes e uid ev) mids))"
  by (induction mids arbitrary: st) (simp_all add: scrape_match_store)

lemma scrape_matches_successful:
  "successful (scrape_matches e uid ev mids st) =
     successful st + length (filter (\<lambda>mid. match_error e uid ev mid = None) mids)"
  by (induction mids arbitrary: st) (simp_all add: scrape_match_successful)

lemma scrape_matches_failed:
  "failed (scrape_matches e uid ev mids st) =
     failed st + length (filter (\<lambda>mid. match_error e uid ev mid \<noteq> None) mids)"
  by (induction mids arbitrary: st) (simp_all add: scrape_match_failed)

lemma scrape_matches_errors:
  "errors (scrape_matches e uid ev mids st) =
     errors st @ map error_line (match_failures e uid ev mids)"
proof (induction mids arbitrary: st)
  case Nil
  then show ?case by (simp add: match_failures_def)
next
  case (Cons mid mids)
  have "errors (scrape_matches e uid ev (mid # mids) st) =
          errors (scrape_match e uid ev st mid) @ map error_line (match_failures e uid ev mids)"
    by (simp add: Cons.IH)
  also have "\<dots> = errors st @ map error_line (match_failures e uid ev (mid # mids))"
    by (simp add: scrape_match_errors match_failures_Cons [of e uid ev mid mids])
  finally show ?case .
qed



lemma filter_partition_length:
  "length (filter P xs) + length (filter (\<lambda>x. \<not> P x) xs) = length xs"
  by (induction xs) simp_all

section \<open>Properties of a run\<close>

lemma summary_json_fields:
  "json_field (summary_json n st) ''total_matches'' = Some (JNum (int n))"
  "json_field (summary_json n st) ''successful'' = Some (JNum (int (successful st)))"
  "json_field (summary_json n st) ''failed'' = Some (JNum (int (failed st)))"
  "json_field (summary_json n st) ''errors'' =
     (if errors st = [] then None else Some (JArr (map JStr (errors st))))"
  by (simp_all add: summary_json_def json_field_def)

lemma scrape_event_summary:
  assumes "scrape_event e req db = (JsonResponse 200 body, db', cs)"
  shows "\<exists>uid ev eid mids.
           body = summary_json (length mids)
                    (scrape_matches e uid ev mids (init_state db [FetchMatches eid]))"
  using assms
  by (auto simp: scrape_event_def error_response_def Let_def
      split: request.splits if_splits option.splits api_outcome.splits)

lemma init_state_fields:
  "store (init_state db cs) = db" "calls (init_state db cs) = cs"
  "successful (init_state db cs) = 0" "failed (init_state db cs) = 0"
  "errors (init_state db cs) = []"
  by (simp_all add: init_state_def)

lemma scrape_matches_partition:
  "successful (scrape_matches e uid ev mids st) + failed (scrape_matches e uid ev mids st) =
     successful st + failed st + length mids"
  using filter_partition_length [of "\<lambda>mid. match_error e uid ev mid = None" mids]
  by (simp add: scrape_matches_successful scrape_matches_failed)

lemma example_env_fields:
  "auth_user example_env = Some ''u1''"
  "fetch_matches example_env eid =
     ApiData (Some [Some [Some ''m1'', Some ''m2''], None, Some [None, Some ''m3'']])"
  by (simp_all add: example_env_def)

lemma example_discovery:
  "match_event ''https://tv.dartconnect.com/event/ev1'' = Some ''ev1''"
  "collect_match_ids (Some [Some [Some ''m1'', Some ''m2''], None, Some [None, Some ''m3'']]) =
     [''m1'', ''m2'', ''m3'']"
  by code_simp+

lemma example_run:
  "scrape_event example_env example_request [] =
     (JsonResponse 200
        (summary_json 3
           (scrape_matches example_env ''u1'' ''Event 1'' [''m1'', ''m2'', ''m3'']
              (init_state [] [FetchMatches ''ev1'']))),
      store (scrape_matches example_env ''u1'' ''Event 1'' [''m1'', ''m2'', ''m3'']
              (init_state [] [FetchMatches ''ev1''])),
      calls (scrape_matches example_env ''u1'' ''Event 1'' [''m1'', ''m2'', ''m3'']
              (init_state [] [FetchMatches ''ev1''])))"
  by (simp add: scrape_event_def example_request_def falsy_str_def example_env_fields
      example_discovery Let_def numeral_3_eq_3 del: scrape_matches.simps)

lemma example_match_errors:
  "match_error example_env ''u1'' ''Event 1'' ''m1'' = None"
  "match_error example_env ''u1'' ''Event 1'' ''m2'' = Some ''Failed to fetch players data: 500''"
  "match_error example_env ''u1'' ''Event 1'' ''m3'' = None"
  by code_simp+


text \<open>
  Claim C10. In a run that reaches the match loop every match identifier is counted once,
  as successful when its \<^verbatim>\<open>try\<close> block ends normally and as failed otherwise, so the
  summary of a 200 response satisfies \<open>successful + failed = total_matches\<close>.
\<close>

theorem summary_counts_partition:
  "successful (scrape_matches e uid ev mids (init_state db0 cs0)) =
     length (filter (\<lambda>mid. match_error e uid ev mid = None) mids)
   \<and> failed (scrape_matches e uid ev mids (init_state db0 cs0)) =
     length (filter (\<lambda>mid. match_error e uid ev mid \<noteq> None) mids)
   \<and> successful (scrape_matches e uid ev mids (init_state db0 cs0))
       + failed (scrape_matches e uid ev mids (init_state db0 cs0)) = length mids
   \<and> (scrape_event e req db = (JsonResponse 200 body, db', cs) \<longrightarrow>
        (\<exists>s f. json_field body ''successful'' = Some (JNum (int s))
             \<and> json_field body ''failed'' = Some (JNum (int f))
             \<and> json_field body ''total_matches'' = Some (JNum (int (s + f)))))"
proof -
  have loop: "successful (scrape_matches e uid ev mids (init_state db0 cs0))
       + failed (scrape_matches e uid ev mids (init_state db0 cs0)) = length mids"
    for e uid ev mids db0 cs0
    by (simp add: scrape_matches_partition init_state_fields)
  have resp: "\<exists>s f. json_field body ''successful'' = Some (JNum (int s))
             \<and> json_field body ''failed'' = Some (JNum (int f))
             \<and> json_field body ''total_matches'' = Some (JNum (int (s + f)))"
    if run: "scrape_event e req db = (JsonResponse 200 body, db', cs)"
  proof -
    from scrape_event_summary [OF run] obtain uid' ev' eid ids where
      body: "body = summary_json (length ids)
                      (scrape_matches e uid' ev' ids (init_state db [FetchMatches eid]))"
      by blast
    let ?st = "scrape_matches e uid' ev' ids (init_state db [FetchMatches eid])"
    have "successful ?st + failed ?st = length ids" by (rule loop)
    then have "json_field body ''total_matches'' = Some (JNum (int (successful ?st + failed ?st)))"
      by (simp add: body summary_json_fields del: of_nat_add)
    then show ?thesis
      using body summary_json_fields(2,3) by blast
  qed
  show ?thesis
    using loop [of e uid ev mids db0 cs0] resp
    by (simp add: scrape_matches_successful scrape_matches_failed init_state_fields)
qed

theorem summary_counts_partition_witness:
  "json_field (response_body (fst (scrape_event example_env example_request []))) ''successful''
     = Some (JNum 2)
   \<and> json_field (response_body (fst (scrape_event example_env example_request []))) ''failed''
     = Some (JNum 1)
   \<and> json_field (response_body (fst (scrape_event example_env example_request [])))
       ''total_matches'' = Some (JNum 3)"
proof -
  let ?st = "scrape_matches example_env ''u1'' ''Event 1'' [''m1'', ''m2'', ''m3'']
               (init_state [] [FetchMatches ''ev1''])"
  have counts: "successful ?st = 2" "failed ?st = 1"
    using summary_counts_partition [of example_env "''u1''" "''Event 1''"
        "[''m1'', ''m2'', ''m3'']" "[]" "[FetchMatches ''ev1'']"]
    by (simp_all add: example_match_errors)
  from summary_counts_partition [of example_env "''u1''" "''Event 1''" "[]" "[]" "[]"
      example_request "[]" "summary_json 3 ?st" "store ?st" "calls ?st"] example_run
  obtain s f where
    "json_field (summary_json 3 ?st) ''successful'' = Some (JNum (int s))"
    "json_field (summary_json 3 ?st) ''failed'' = Some (JNum (int f))"
    "json_field (summary_json 3 ?st) ''total_matches'' = Some (JNum (int (s + f)))"
    by blast
  with counts show ?thesis
    by (simp add: example_run response_body_def summary_json_fields)
qed

lemma players_writes_complete:
  assumes "result_error (process_players e uid ev mid c i ps st) = None"
    and "j < length ps" and "ps ! j = Some p"
  shows "build_record uid ev mid p c (i + j) \<in> set (players_writes e uid ev mid c i ps)"
  using assms
proof (induction ps arbitrary: i j st)
  case Nil
  then show ?case by simp
next
  case (Cons q ps)
  from Cons.prems(1) obtain player where q: "q = Some player"
    by (cases q) (auto simp: result_simps)
  let ?r = "build_record uid ev mid player c i"
  from Cons.prems(1) q have ok: "upsert_error e ?r = None"
    by (cases "upsert_error e ?r") (auto simp: result_simps Let_def)
  show ?case
  proof (cases j)
    case 0
    with Cons.prems(3) q ok show ?thesis by simp
  next
    case (Suc j')
    let ?st = "st\<lparr>calls := calls st @ [Upsert ?r], store := upsert (store st) ?r,
                  playerSummary := track_player (playerSummary st) (name player) (count_180s ?r)\<rparr>"
    from Cons.prems(1) q ok
    have "result_error (process_players e uid ev mid c (Suc i) ps ?st) = None"
      by (simp add: Let_def)
    moreover from Cons.prems(2,3) Suc have "j' < length ps" "ps ! j' = Some p" by simp_all
    ultimately have "build_record uid ev mid p c (Suc i + j') \<in> set (players_writes e uid ev mid c (Suc i) ps)"
      by (rule Cons.IH)
    with q ok Suc show ?thesis by simp
  qed
qed

lemma match_writes_complete:
  assumes "match_error e uid ev mid = None"
    and "fetch_players e mid = PageProps players" and "fetch_counts e mid = PageProps c"
    and "i < length players" and "players ! i = Some player"
  shows "build_record uid ev mid player c i \<in> set (match_writes e uid ev mid)"
proof -
  from assms(1,2,3)
  have "result_error (process_players e uid ev mid c 0 players
          ((init_state [] [])\<lparr>calls := calls (init_state [] []) @ [FetchPlayers mid],
                               calls := (calls (init_state [] []) @ [FetchPlayers mid]) @ [FetchCounts mid]\<rparr>)) = None"
    by (simp add: match_error_def try_match_def Let_def)
  from players_writes_complete [OF this assms(4,5)] assms(2,3) show ?thesis
    by (simp add: match_writes_def)
qed



lemma example_failures:
  "match_failures example_env ''u1'' ''Event 1'' [''m1'', ''m2'', ''m3''] =
     [(''m2'', ''Failed to fetch players data: 500'')]"
  by (simp add: match_failures_def example_match_errors)

lemma example_pages:
  "fetch_players example_env ''m1'' = PageProps [Some alice, Some bob]"
  "fetch_players example_env ''m3'' = PageProps [Some alice, Some bob]"
  "fetch_players example_env ''m2'' = PageNotOk 500"
  "fetch_counts example_env mid = PageProps example_counts"
  by (simp_all add: example_env_def)


lemma length_match_failures:
  "length (match_failures e uid ev mids) =
     length (filter (\<lambda>mid. match_error e uid ev mid \<noteq> None) mids)"
  by (induction mids) (auto simp: match_failures_def split: option.splits)

lemma set_match_failures:
  "set (match_failures e uid ev mids) =
     {(mid, msg). mid \<in> set mids \<and> match_error e uid ev mid = Some msg}"
  by (auto simp: match_failures_def split: option.splits)

text \<open>
  Claim C7, as stated, fails on the shape of the entries: the error list holds strings, not
  objects with a \<open>match_id\<close> and a \<open>message\<close>.
\<close>

theorem errors_entries_counterexample:
  "json_field (response_body (fst (scrape_event example_env example_request []))) ''errors''
     = Some (JArr [JStr ''Match m2: Failed to fetch players data: 500''])
   \<and> \<not> is_error_object (JStr ''Match m2: Failed to fetch players data: 500'')"
proof -
  let ?st = "scrape_matches example_env ''u1'' ''Event 1'' [''m1'', ''m2'', ''m3'']
               (init_state [] [FetchMatches ''ev1''])"
  have "errors ?st = [] @ map error_line [(''m2'', ''Failed to fetch players data: 500'')]"
    by (simp only: scrape_matches_errors example_failures init_state_fields)
  then have "errors ?st = [''Match m2: Failed to fetch players data: 500'']"
    by (simp add: error_line_def)
  then show ?thesis
    by (simp add: example_run response_body_def summary_json_fields)
qed

text \<open>
  Claim C7, amended. In the summary the \<open>errors\<close> field is present only when at least one
  match failed, and it then holds, for each failed match in order, the string
  \<^verbatim>\<open>Match <match_id>: <message>\<close>.
\<close>

theorem errors_field_of_summary:
  "json_field (summary_json n (scrape_matches e uid ev mids (init_state db cs))) ''errors'' =
     (if failed (scrape_matches e uid ev mids (init_state db cs)) = 0 then None
      else Some (JArr (map (\<lambda>p. JStr (''Match '' @ fst p @ '': '' @ snd p))
                         (match_failures e uid ev mids))))
   \<and> length (match_failures e uid ev mids) = failed (scrape_matches e uid ev mids (init_state db cs))
   \<and> (\<forall>p\<in>set (match_failures e uid ev mids).
         fst p \<in> set mids \<and> match_error e uid ev (fst p) = Some (snd p))"
proof -
  let ?st = "scrape_matches e uid ev mids (init_state db cs)"
  have f: "failed ?st = length (match_failures e uid ev mids)"
    by (simp add: scrape_matches_failed init_state_fields length_match_failures)
  have e: "errors ?st = map error_line (match_failures e uid ev mids)"
    by (simp add: scrape_matches_errors init_state_fields)
  have l: "error_line = (\<lambda>p. ''Match '' @ fst p @ '': '' @ snd p)"
    by (simp add: error_line_def fun_eq_iff)
  have 1: "json_field (summary_json n ?st) ''errors'' =
     (if failed ?st = 0 then None
      else Some (JArr (map (\<lambda>p. JStr (''Match '' @ fst p @ '': '' @ snd p))
                         (match_failures e uid ev mids))))"
    by (simp add: summary_json_fields e f l comp_def)
  have 3: "\<forall>p\<in>set (match_failures e uid ev mids).
         fst p \<in> set mids \<and> match_error e uid ev (fst p) = Some (snd p)"
    by (auto simp: set_match_failures)
  from 1 f 3 show ?thesis by simp
qed

theorem errors_field_of_summary_witness:
  "json_field (summary_json 3 (scrape_matches example_env ''u1'' ''Event 1''
       [''m1'', ''m2'', ''m3''] (init_state [] [FetchMatches ''ev1'']))) ''errors'' =
     Some (JArr [JStr ''Match m2: Failed to fetch players data: 500''])
   \<and> failed (scrape_matches example_env ''u1'' ''Event 1''
       [''m1'', ''m2'', ''m3''] (init_state [] [FetchMatches ''ev1''])) = 1
   \<and> ''m2'' \<in> set [''m1'', ''m2'', ''m3'']
   \<and> match_error example_env ''u1'' ''Event 1'' ''m2'' = Some ''Failed to fetch players data: 500''
   \<and> json_field (summary_json 1 (scrape_matches example_env ''u1'' ''Event 1''
       [''m1''] (init_state [] [FetchMatches ''ev1'']))) ''errors'' = None
   \<and> failed (scrape_matches example_env ''u1'' ''Event 1''
       [''m1''] (init_state [] [FetchMatches ''ev1''])) = 0"
proof -
  have one: "match_failures example_env ''u1'' ''Event 1'' [''m1''] = []"
    by (simp add: match_failures_def example_match_errors)
  show ?thesis
    using errors_field_of_summary [of 3 example_env "''u1''" "''Event 1''"
        "[''m1'', ''m2'', ''m3'']" "[]" "[FetchMatches ''ev1'']"]
      errors_field_of_summary [of 1 example_env "''u1''" "''Event 1''"
        "[''m1'']" "[]" "[FetchMatches ''ev1'']"]
    by (simp add: example_failures one split: if_splits)
qed

text \<open>
  Claim C6. When the event reference does not match \<^verbatim>\<open>event/<token>\<close>, or the discovery
  answer holds no match identifier, the run ends with a 400 response before the match
  loop: no roster or counts page is fetched, nothing is written, and the store is as it
  was.
\<close>

theorem fatal_discovery_errors_make_no_downstream_calls:
  assumes "\<not> falsy_str (Some url)" and "\<not> falsy_str ev_name" and "auth_user e = Some uid"
  shows "(match_event url = None \<longrightarrow>
            scrape_event e (Post (Some url) ev_name) db =
              (error_response 400 ''Invalid event URL format'', db, []))
       \<and> (\<forall>eid secs. match_event url = Some eid \<and> fetch_matches e eid = ApiData secs
              \<and> collect_match_ids secs = [] \<longrightarrow>
            scrape_event e (Post (Some url) ev_name) db =
              (error_response 400 ''No matches found in event'', db, [FetchMatches eid]))
       \<and> (match_event url = None
           \<or> (\<exists>eid secs. match_event url = Some eid \<and> fetch_matches e eid = ApiData secs
                 \<and> collect_match_ids secs = []) \<longrightarrow>
            filter is_downstream (snd (snd (scrape_event e (Post (Some url) ev_name) db))) = []
            \<and> fst (snd (scrape_event e (Post (Some url) ev_name) db)) = db)"
proof -
  have invalid: "scrape_event e (Post (Some url) ev_name) db =
      (error_response 400 ''Invalid event URL format'', db, [])" if "match_event url = None"
    using assms that by (simp add: scrape_event_def)
  have empty: "scrape_event e (Post (Some url) ev_name) db =
      (error_response 400 ''No matches found in event'', db, [FetchMatches eid])"
    if "match_event url = Some eid" "fetch_matches e eid = ApiData secs"
      "collect_match_ids secs = []" for eid secs
    using assms that by (simp add: scrape_event_def)
  have "filter is_downstream (snd (snd (scrape_event e (Post (Some url) ev_name) db))) = []
        \<and> fst (snd (scrape_event e (Post (Some url) ev_name) db)) = db"
    if "match_event url = None
         \<or> (\<exists>eid secs. match_event url = Some eid \<and> fetch_matches e eid = ApiData secs
               \<and> collect_match_ids secs = [])"
    using that
  proof
    assume "match_event url = None"
    then show ?thesis by (simp add: invalid)
  next
    assume "\<exists>eid secs. match_event url = Some eid \<and> fetch_matches e eid = ApiData secs
               \<and> collect_match_ids secs = []"
    then obtain eid secs where "match_event url = Some eid" "fetch_matches e eid = ApiData secs"
      "collect_match_ids secs = []" by blast
    then show ?thesis by (simp add: empty)
  qed
  with invalid empty show ?thesis by blast
qed

lemma empty_event_discovery:
  "match_event ''https://tv.dartconnect.com/events'' = None"
  "collect_match_ids (Some [Some [None], None]) = []"
  by code_simp+

theorem fatal_discovery_errors_make_no_downstream_calls_witness:
  "scrape_event example_env (Post (Some ''https://tv.dartconnect.com/events'') (Some ''Event 1'')) []
     = (error_response 400 ''Invalid event URL format'', [], [])
   \<and> scrape_event empty_event_env example_request []
     = (error_response 400 ''No matches found in event'', [], [FetchMatches ''ev1''])
   \<and> filter is_downstream (snd (snd (scrape_event empty_event_env example_request []))) = []
   \<and> fst (snd (scrape_event empty_event_env example_request [])) = []"
proof -
  have a: "\<not> falsy_str (Some ''https://tv.dartconnect.com/events'')"
    "\<not> falsy_str (Some ''https://tv.dartconnect.com/event/ev1'')" "\<not> falsy_str (Some ''Event 1'')"
    by (simp_all add: falsy_str_def)
  have u: "auth_user empty_event_env = Some ''u1''"
    "fetch_matches empty_event_env ''ev1'' = ApiData (Some [Some [None], None])"
    by (simp_all add: empty_event_env_def)
  from fatal_discovery_errors_make_no_downstream_calls [OF a(1) a(3) example_env_fields(1), of "[]"]
    fatal_discovery_errors_make_no_downstream_calls [OF a(2) a(3) u(1), of "[]"]
  show ?thesis
    using u(2) empty_event_discovery example_discovery(1)
    by (simp add: example_request_def)
qed

lemma build_record_name: "rec_name (build_record uid ev mid player c i) = name player"
  by (simp add: build_record_def Let_def)

lemma process_players_prefix:
  assumes "\<forall>r\<in>set (build_records uid ev mid c i done). upsert_error e r = None"
  shows "process_players e uid ev mid c i (map Some done @ rest) st =
         process_players e uid ev mid c (i + length done) rest
           (st\<lparr>calls := calls st @ map Upsert (build_records uid ev mid c i done),
               store := foldl upsert (store st) (build_records uid ev mid c i done),
               playerSummary :=
                 foldl (\<lambda>ps r. track_player ps (rec_name r) (count_180s r)) (playerSummary st)
                   (build_records uid ev mid c i done)\<rparr>)"
  using assms
proof (induction "done" arbitrary: i st)
  case Nil
  then show ?case by simp
next
  case (Cons p ps)
  let ?r = "build_record uid ev mid p c i"
  let ?st = "st\<lparr>calls := calls st @ [Upsert ?r], store := upsert (store st) ?r,
                playerSummary := track_player (playerSummary st) (name p) (count_180s ?r)\<rparr>"
  from Cons.prems have ok: "upsert_error e ?r = None"
    and rest: "\<forall>r\<in>set (build_records uid ev mid c (Suc i) ps). upsert_error e r = None"
    by simp_all
  have "process_players e uid ev mid c i (map Some (p # ps) @ rest) st =
        process_players e uid ev mid c (Suc i) (map Some ps @ rest) ?st"
    using ok by (simp add: Let_def)
  also note Cons.IH [OF rest, of ?st]
  finally show ?case
    by (simp add: build_record_name)
qed

text \<open>
  Claim C3, as stated, fails: when the write of one record is rejected, the exception leaves
  the player loop, so the records of the players after it are not written and the match
  is counted as failed. Here only the record of Alice is rejected; the record of Bob would
  be accepted but is never sent.
\<close>

theorem upsert_failure_counterexample:
  "upsert_error (rejecting_env ''Alice'')
       (build_record ''u1'' ''Event 1'' ''m1'' alice example_counts 0) = Some ''timeout''
   \<and> upsert_error (rejecting_env ''Alice'')
       (build_record ''u1'' ''Event 1'' ''m1'' bob example_counts 1) = None
   \<and> lookup (store (scrape_matches (rejecting_env ''Alice'') ''u1'' ''Event 1'' [''m1'']
         (init_state [] []))) (''u1'', ''Event 1'', ''m1'', ''Bob'') = None
   \<and> Upsert (build_record ''u1'' ''Event 1'' ''m1'' bob example_counts 1)
       \<notin> set (calls (scrape_matches (rejecting_env ''Alice'') ''u1'' ''Event 1'' [''m1'']
             (init_state [] [])))
   \<and> successful (scrape_matches (rejecting_env ''Alice'') ''u1'' ''Event 1'' [''m1'']
         (init_state [] [])) = 0
   \<and> failed (scrape_matches (rejecting_env ''Alice'') ''u1'' ''Event 1'' [''m1'']
         (init_state [] [])) = 1"
  by code_simp


text \<open>
  Claim C3, amended. When the write of one player's record is rejected, the match is
  aborted at that record: the records of the players before it stay written, the write of
  the rejected record is the last call of the match (no record of a later player is
  sent), the match is counted as failed with one error line, and the run goes on with the
  next match.
\<close>

theorem upsert_failure_aborts_match:
  assumes "fetch_players e mid = PageProps (map Some done @ Some p # rest)"
    and "fetch_counts e mid = PageProps c"
    and "\<forall>r\<in>set (build_records uid ev mid c 0 done). upsert_error e r = None"
    and "upsert_error e (build_record uid ev mid p c (length done)) = Some msg"
  shows "store (scrape_match e uid ev st mid) =
           foldl upsert (store st) (build_records uid ev mid c 0 done)
       \<and> calls (scrape_match e uid ev st mid) =
           calls st @ [FetchPlayers mid, FetchCounts mid]
             @ map Upsert (build_records uid ev mid c 0 done)
             @ [Upsert (build_record uid ev mid p c (length done))]
       \<and> successful (scrape_match e uid ev st mid) = successful st
       \<and> failed (scrape_match e uid ev st mid) = failed st + 1
       \<and> errors (scrape_match e uid ev st mid) =
           errors st @ [''Match '' @ mid @ '': Supabase upsert failed: '' @ msg]
       \<and> scrape_matches e uid ev (mid # mids) st =
           scrape_matches e uid ev mids (scrape_match e uid ev st mid)"
proof -
  let ?recs = "build_records uid ev mid c 0 done"
  let ?rp = "build_record uid ev mid p c (length done)"
  let ?st2 = "st\<lparr>calls := calls st @ [FetchPlayers mid, FetchCounts mid]\<rparr>"
  let ?st3 = "?st2\<lparr>calls := calls ?st2 @ map Upsert ?recs,
                    store := foldl upsert (store ?st2) ?recs,
                    playerSummary :=
                      foldl (\<lambda>ps r. track_player ps (rec_name r) (count_180s r))
                        (playerSummary ?st2) ?recs\<rparr>"
  have "try_match e uid ev mid st =
          process_players e uid ev mid c 0 (map Some done @ Some p # rest) ?st2"
    using assms(1,2) by (simp add: try_match_def Let_def)
  also have "\<dots> = process_players e uid ev mid c (0 + length done) (Some p # rest) ?st3"
    by (rule process_players_prefix [OF assms(3)])
  also have "\<dots> = Inl (''Supabase upsert failed: '' @ msg,
                       ?st3\<lparr>calls := calls ?st3 @ [Upsert ?rp]\<rparr>)"
    using assms(4) by (simp add: Let_def)
  finally have "try_match e uid ev mid st =
      Inl (''Supabase upsert failed: '' @ msg, ?st3\<lparr>calls := calls ?st3 @ [Upsert ?rp]\<rparr>)" .
  then show ?thesis
    by (simp add: scrape_match_def)
qed

lemma rejecting_env_fields:
  "fetch_players (rejecting_env n) mid = PageProps [Some alice, Some bob]"
  "fetch_counts (rejecting_env n) mid = PageProps example_counts"
  "upsert_error (rejecting_env n) r = (if rec_name r = n then Some ''timeout'' else None)"
  by (simp_all add: rejecting_env_def)

theorem upsert_failure_aborts_match_witness:
  "store (scrape_match (rejecting_env ''Bob'') ''u1'' ''Event 1'' (init_state [] []) ''m1'') =
     [build_record ''u1'' ''Event 1'' ''m1'' alice example_counts 0]
   \<and> calls (scrape_match (rejecting_env ''Bob'') ''u1'' ''Event 1'' (init_state [] []) ''m1'') =
     [FetchPlayers ''m1'', FetchCounts ''m1'',
      Upsert (build_record ''u1'' ''Event 1'' ''m1'' alice example_counts 0),
      Upsert (build_record ''u1'' ''Event 1'' ''m1'' bob example_counts 1)]
   \<and> successful (scrape_match (rejecting_env ''Bob'') ''u1'' ''Event 1'' (init_state [] []) ''m1'')
       = 0
   \<and> failed (scrape_match (rejecting_env ''Bob'') ''u1'' ''Event 1'' (init_state [] []) ''m1'') = 1
   \<and> errors (scrape_match (rejecting_env ''Bob'') ''u1'' ''Event 1'' (init_state [] []) ''m1'') =
       [''Match m1: Supabase upsert failed: timeout'']"
proof -
  have 1: "fetch_players (rejecting_env ''Bob'') ''m1'' = PageProps (map Some [alice] @ Some bob # [])"
    by (simp add: rejecting_env_fields)
  have 3: "\<forall>r\<in>set (build_records ''u1'' ''Event 1'' ''m1'' example_counts 0 [alice]).
             upsert_error (rejecting_env ''Bob'') r = None"
    by (simp add: rejecting_env_fields build_record_name alice_def)
  have 4: "upsert_error (rejecting_env ''Bob'')
             (build_record ''u1'' ''Event 1'' ''m1'' bob example_counts (length [alice])) = Some ''timeout''"
    by (simp add: rejecting_env_fields build_record_name bob_def)
  from upsert_failure_aborts_match [OF 1 rejecting_env_fields(2) 3 4, of "init_state [] []" "[]"]
  show ?thesis
    by (simp add: init_state_fields)
qed

lemma scrape_event_store:
  "fst (snd (scrape_event e req db)) = foldl upsert db (event_writes e req)"
  by (simp add: scrape_event_def event_writes_def Let_def scrape_matches_store init_state_fields
      split: request.splits option.splits api_outcome.splits)

lemma lookup_Some_mem: "lookup ws k = Some r \<Longrightarrow> r \<in> set ws \<and> key_of r = k"
  by (induction ws) (auto simp: lookup_Nil lookup_Cons split: if_splits)

lemma lookup_distinct_mem:
  "distinct (map key_of ws) \<Longrightarrow> r \<in> set ws \<Longrightarrow> lookup ws (key_of r) = Some r"
  by (induction ws) (auto simp: lookup_Nil lookup_Cons)

lemma event_writes_post:
  assumes "url \<noteq> []" and "evn \<noteq> []" and "auth_user e = Some uid"
    and "match_event url = Some eid" and "fetch_matches e eid = ApiData secs"
  shows "event_writes e (Post (Some url) (Some evn)) =
           concat (map (match_writes e uid evn) (collect_match_ids secs))"
  using assms by (simp add: event_writes_def falsy_str_def)

text \<open>
  Claim C5. Every record that a run writes is in the store after the run, whole, under
  its key (user, event name, match, player name), whatever the store held under that key
  before: where the run writes a key more than once the last record stays, and for a
  player of a match that succeeds a record of this run is there (the player's own record
  when no key is written twice). The rows of other keys are untouched, the store
  never holds two rows with one key, and a second run against the same upstream answers
  leaves the store exactly as the first run left it.
\<close>

theorem reingestion_is_idempotent:
  assumes "distinct (map key_of db)"
  shows "distinct (map key_of (fst (snd (scrape_event e req db))))
       \<and> (\<forall>r\<in>set (event_writes e req).
            lookup (fst (snd (scrape_event e req db))) (key_of r) =
              lookup (rev (event_writes e req)) (key_of r))
       \<and> (\<forall>k. k \<notin> set (map key_of (event_writes e req)) \<longrightarrow>
            lookup (fst (snd (scrape_event e req db))) k = lookup db k)
       \<and> (\<forall>url evn uid eid secs mid players c i player.
            req = Post (Some url) (Some evn) \<and> url \<noteq> [] \<and> evn \<noteq> []
            \<and> auth_user e = Some uid \<and> match_event url = Some eid
            \<and> fetch_matches e eid = ApiData secs \<and> mid \<in> set (collect_match_ids secs)
            \<and> match_error e uid evn mid = None
            \<and> fetch_players e mid = PageProps players \<and> fetch_counts e mid = PageProps c
            \<and> i < length players \<and> players ! i = Some player
            \<longrightarrow> build_record uid evn mid player c i \<in> set (event_writes e req)
              \<and> (\<exists>r\<in>set (event_writes e req).
                    lookup (fst (snd (scrape_event e req db))) (uid, evn, mid, name player) = Some r)
              \<and> (distinct (map key_of (event_writes e req)) \<longrightarrow>
                    lookup (fst (snd (scrape_event e req db))) (uid, evn, mid, name player) =
                      Some (build_record uid evn mid player c i)))
       \<and> fst (snd (scrape_event e req (fst (snd (scrape_event e req db))))) =
           fst (snd (scrape_event e req db))"
proof -
  let ?ws = "event_writes e req"
  let ?db1 = "fst (snd (scrape_event e req db))"
  have db1: "?db1 = foldl upsert db ?ws" by (rule scrape_event_store)
  have inv: "distinct (map key_of ?db1)"
    using assms by (simp only: db1 distinct_foldl_upsert)
  have last: "lookup ?db1 (key_of r) = lookup (rev ?ws) (key_of r)" if "r \<in> set ?ws" for r
  proof -
    from that have "key_of r \<in> set (map key_of (rev ?ws))" by simp
    then obtain r' where "lookup (rev ?ws) (key_of r) = Some r'"
      using lookup_None_iff [of "rev ?ws" "key_of r"] by (cases "lookup (rev ?ws) (key_of r)") auto
    then show ?thesis by (simp add: db1 lookup_foldl_upsert)
  qed
  have other: "lookup ?db1 k = lookup db k" if "k \<notin> set (map key_of ?ws)" for k
  proof -
    from that have "k \<notin> set (map key_of (rev ?ws))" by simp
    then have "lookup (rev ?ws) k = None" using lookup_None_iff by blast
    then show ?thesis by (simp add: db1 lookup_foldl_upsert)
  qed
  have player: "build_record uid evn mid player c i \<in> set ?ws
      \<and> (\<exists>r\<in>set ?ws. lookup ?db1 (uid, evn, mid, name player) = Some r)
      \<and> (distinct (map key_of ?ws) \<longrightarrow>
            lookup ?db1 (uid, evn, mid, name player) = Some (build_record uid evn mid player c i))"
    if req: "req = Post (Some url) (Some evn)" "url \<noteq> []" "evn \<noteq> []"
      and disc: "auth_user e = Some uid" "match_event url = Some eid"
        "fetch_matches e eid = ApiData secs" "mid \<in> set (collect_match_ids secs)"
      and ok: "match_error e uid evn mid = None" "fetch_players e mid = PageProps players"
        "fetch_counts e mid = PageProps c" "i < length players" "players ! i = Some player"
    for url evn uid eid secs mid players c i player
  proof -
    let ?r = "build_record uid evn mid player c i"
    have "?r \<in> set (match_writes e uid evn mid)"
      using ok by (rule match_writes_complete)
    with disc(4) have mem: "?r \<in> set ?ws"
      unfolding req(1) event_writes_post [OF req(2,3) disc(1,2,3)] by auto
    have key: "key_of ?r = (uid, evn, mid, name player)" by (rule build_record_key)
    from last [OF mem] have l: "lookup ?db1 (uid, evn, mid, name player) = lookup (rev ?ws) (key_of ?r)"
      by (simp only: key)
    from mem have "key_of ?r \<in> set (map key_of (rev ?ws))" by simp
    then obtain r' where r': "lookup (rev ?ws) (key_of ?r) = Some r'"
      using lookup_None_iff [of "rev ?ws" "key_of ?r"] by (cases "lookup (rev ?ws) (key_of ?r)") auto
    then have "r' \<in> set ?ws" using lookup_Some_mem by fastforce
    with l r' have ex: "\<exists>r\<in>set ?ws. lookup ?db1 (uid, evn, mid, name player) = Some r" by auto
    have "lookup ?db1 (uid, evn, mid, name player) = Some ?r" if "distinct (map key_of ?ws)"
    proof -
      from that have "distinct (map key_of (rev ?ws))" by (simp add: rev_map [symmetric])
      moreover from mem have "?r \<in> set (rev ?ws)" by simp
      ultimately have "lookup (rev ?ws) (key_of ?r) = Some ?r" by (rule lookup_distinct_mem)
      with l show ?thesis by simp
    qed
    with mem ex show ?thesis by blast
  qed
  have "fst (snd (scrape_event e req ?db1)) = foldl upsert (foldl upsert db ?ws) ?ws"
    by (simp only: scrape_event_store)
  also have "\<dots> = foldl upsert db ?ws"
    using assms by (rule foldl_upsert_twice)
  finally have twice: "fst (snd (scrape_event e req ?db1)) = ?db1"
    by (simp only: scrape_event_store)
  from inv last other player twice show ?thesis by blast
qed


lemma example_event_writes:
  "distinct (map key_of (event_writes example_env example_request))"
  "length (fst (snd (scrape_event example_env example_request stale_store))) = 4"
  "lookup stale_store (''u1'', ''Event 1'', ''m1'', ''Alice'') =
     Some (build_record ''u1'' ''Event 1'' ''m1'' alice zero_first_nine_counts 0)"
  "build_record ''u1'' ''Event 1'' ''m1'' alice zero_first_nine_counts 0 \<noteq>
     build_record ''u1'' ''Event 1'' ''m1'' alice example_counts 0"
  by code_simp+

theorem reingestion_is_idempotent_witness:
  "distinct (map key_of stale_store)
   \<and> lookup stale_store (''u1'', ''Event 1'', ''m1'', ''Alice'') =
       Some (build_record ''u1'' ''Event 1'' ''m1'' alice zero_first_nine_counts 0)
   \<and> build_record ''u1'' ''Event 1'' ''m1'' alice zero_first_nine_counts 0 \<noteq>
       build_record ''u1'' ''Event 1'' ''m1'' alice example_counts 0
   \<and> lookup (fst (snd (scrape_event example_env example_request stale_store)))
       (''u1'', ''Event 1'', ''m1'', ''Alice'') =
       Some (build_record ''u1'' ''Event 1'' ''m1'' alice example_counts 0)
   \<and> lookup (fst (snd (scrape_event example_env example_request stale_store)))
       (''u1'', ''Event 1'', ''m3'', ''Bob'') =
       Some (build_record ''u1'' ''Event 1'' ''m3'' bob example_counts 1)
   \<and> length (fst (snd (scrape_event example_env example_request stale_store))) = 4
   \<and> distinct (map key_of (fst (snd (scrape_event example_env example_request stale_store))))
   \<and> fst (snd (scrape_event example_env example_request
              (fst (snd (scrape_event example_env example_request stale_store))))) =
       fst (snd (scrape_event example_env example_request stale_store))"
proof -
  let ?db1 = "fst (snd (scrape_event example_env example_request stale_store))"
  let ?url = "''https://tv.dartconnect.com/event/ev1''"
  let ?secs = "Some [Some [Some ''m1'', Some ''m2''], None, Some [None, Some ''m3'']]"
  have d: "distinct (map key_of stale_store)"
    by (simp add: stale_store_def)
  note run = reingestion_is_idempotent [OF d, of example_env example_request]
  have written: "lookup ?db1 (''u1'', ''Event 1'', mid, name player) =
      Some (build_record ''u1'' ''Event 1'' mid player example_counts i)"
    if "mid \<in> set [''m1'', ''m2'', ''m3'']" "match_error example_env ''u1'' ''Event 1'' mid = None"
      "fetch_players example_env mid = PageProps players" "i < length players"
      "players ! i = Some player" for mid players i player
  proof -
    have "example_request = Post (Some ?url) (Some ''Event 1'') \<and> ?url \<noteq> [] \<and> ''Event 1'' \<noteq> []
        \<and> auth_user example_env = Some ''u1'' \<and> match_event ?url = Some ''ev1''
        \<and> fetch_matches example_env ''ev1'' = ApiData ?secs \<and> mid \<in> set (collect_match_ids ?secs)
        \<and> match_error example_env ''u1'' ''Event 1'' mid = None
        \<and> fetch_players example_env mid = PageProps players
        \<and> fetch_counts example_env mid = PageProps example_counts
        \<and> i < length players \<and> players ! i = Some player"
      using that
      by (simp add: example_request_def example_env_fields example_discovery example_pages(4))
    with run example_event_writes(1) show ?thesis by blast
  qed
  have a: "lookup ?db1 (''u1'', ''Event 1'', ''m1'', name alice) =
      Some (build_record ''u1'' ''Event 1'' ''m1'' alice example_counts 0)"
    by (rule written [of "''m1''" "[Some alice, Some bob]" 0])
      (simp_all add: example_match_errors example_pages)
  have b: "lookup ?db1 (''u1'', ''Event 1'', ''m3'', name bob) =
      Some (build_record ''u1'' ''Event 1'' ''m3'' bob example_counts 1)"
    by (rule written [of "''m3''" "[Some alice, Some bob]" 1])
      (simp_all add: example_match_errors example_pages)
  from run have "distinct (map key_of ?db1)"
    and "fst (snd (scrape_event example_env example_request ?db1)) = ?db1"
    by blast+
  with a b d example_event_writes(2,3,4) show ?thesis
    by (simp add: alice_def bob_def)
qed

section \<open>Properties of the leaderboard\<close>




lemma length_insert_desc: "length (insert_desc r xs) = Suc (length xs)"
  by (induction xs) auto



lemma length_order_desc: "length (order_desc xs) = length xs"
  by (induction xs) (simp_all add: order_desc_def length_insert_desc)









lemma player_stats_row:
  "p \<in> set (player_stats q rs) \<Longrightarrow>
     ps_name p \<in> set (map rec_name rs)
     \<and> weighted_3da p = weighted_average (records_of rs (ps_name p))"
  by (auto simp: player_stats_def)







end
